theory Spec2Isabelle
  imports Complex_Main "HOL-Library.Word"
begin

unbundle bit_operations_syntax

section \<open>Conventions\<close>

text \<open>
  The development embeds the two C entry points of the knapsack library,
  \<^verbatim>\<open>solve_knapsack\<close> (knapsack_solve.cpp) and
  \<^verbatim>\<open>solve_knapsack_v2_from_json\<close> (knapsack_v2.cpp).

  \<^item> In knapsack_solve.cpp, where the code computes with them, C++ \<^verbatim>\<open>int\<close> is
    \<open>32 word\<close>, read in two's complement (\<open>sint\<close>): sums and differences wrap around as the compiled code does, and
    comparisons are the signed ones. Loop counters and container indices, which
    never go below zero, are \<open>nat\<close>.
  \<^item> \<^verbatim>\<open>unsigned char\<close> is \<open>8 word\<close>, \<^verbatim>\<open>unsigned\<close> is \<open>32 word\<close>.
  \<^item> In knapsack_solve.cpp \<^verbatim>\<open>float\<close> and \<^verbatim>\<open>double\<close> are type parameters
    \<open>'f\<close> and \<open>'d\<close>: every operation on them, the conversions included, is a field
    of the platform record, so that nothing is assumed of their rounding.
  \<^item> A C++ exception is a value \<open>Inl e\<close> of a sum type; a null pointer is
    \<open>None\<close>.
  \<^item> Code that the two files call but do not contain (the CSV loader, the
    constants, the random number engine, the accelerator, the v2 engine, the
    allocator) is a field of a platform record.
\<close>

section \<open>Candidate encoding: two bits per item\<close>

type_synonym byte = "8 word"
type_synonym lane = "32 word"
type_synonym cint = "32 word"

text \<open>The lambda \<^verbatim>\<open>set_lane\<close> of knapsack_solve.cpp, lines 66-71.\<close>

definition set_lane :: "nat \<Rightarrow> byte list \<Rightarrow> nat \<Rightarrow> nat \<Rightarrow> lane \<Rightarrow> byte list" where
  "set_lane bytes_per_cand cand c item lane =
     (let byteIdx = c * bytes_per_cand + drop_bit 2 item;
          shift = (item AND 3) * 2;
          mask = (ucast (push_bit shift (3 :: 32 word)) :: byte)
      in cand[byteIdx := (cand ! byteIdx AND NOT mask) OR ucast (push_bit shift (lane AND 3))])"

text \<open>The decoding of one lane, lines 117-119.\<close>

definition decode_lane :: "nat \<Rightarrow> byte list \<Rightarrow> nat \<Rightarrow> nat \<Rightarrow> lane" where
  "decode_lane bytes_per_cand cand c i =
     (let byteIdx = c * bytes_per_cand + drop_bit 2 i;
          shift = (i AND 3) * 2
      in drop_bit shift (ucast (cand ! byteIdx) :: 32 word) AND 3)"

text \<open>\<^verbatim>\<open>std::max\<close> on \<^verbatim>\<open>int\<close>: the second argument when the first is less.\<close>

definition smax :: "cint \<Rightarrow> cint \<Rightarrow> cint" where
  "smax a b = (if a <s b then b else a)"

section \<open>The platform of the legacy entry point\<close>

datatype cpp_exception = bad_alloc | runtime_error string | unknown_exception

text \<open>The \<^verbatim>\<open>Entity\<close> of InputModule.h, with the fields that
  knapsack_solve.cpp reads.\<close>

record 'd Entity =
  name :: string
  latitude :: 'd
  longitude :: 'd
  priority :: cint
  resourceUnits :: cint

text \<open>The argument of \<^verbatim>\<open>knapsack_metal_eval\<close>, in the order the fields are
  assigned (lines 88-96): candidates, num_items, num_candidates, item_values,
  item_weights, group_capacities, num_groups, penalty_coeff, penalty_power.\<close>

datatype 'f MetalEvalIn =
  MetalEvalIn "byte list" nat nat "'f list" "'f list" "'f list" nat 'f 'f

text \<open>
  \<open>mt19937\<close> is the engine's constructor from a seed and
  \<open>uniform_int_distribution\<close> one draw of \<^verbatim>\<open>bit(rng)\<close>, returning the value and
  the engine's next state. \<open>knapsack_metal_eval\<close> is \<open>None\<close> when the call is
  compiled out or returns nonzero; otherwise it gives the arrays \<^verbatim>\<open>obj\<close> and
  \<^verbatim>\<open>pen\<close> as it leaves them. \<open>heap_exhausted\<close> makes \<^verbatim>\<open>new\<close> throw.
  \<open>float_of_int\<close> is the conversion \<^verbatim>\<open>int\<close> to \<^verbatim>\<open>float\<close> of lines 59-62,
  \<open>int_of_float\<close> the cast \<^verbatim>\<open>(int)weights[i]\<close> of lines 77-78, \<open>float_one\<close>
  the literal \<^verbatim>\<open>1.0f\<close>, \<open>float_sub\<close> and
  \<open>float_less\<close> the \<^verbatim>\<open>-\<close> and \<^verbatim>\<open><\<close> of lines 110-113, and \<open>double_zero\<close>,
  \<open>double_add\<close>, \<open>double_mul\<close>, \<open>double_div\<close> the arithmetic of lines 154-186.
\<close>

record ('g, 'f, 'd) Platform =
  MAX_UNITS_PER_GROUP :: cint
  GARAGE_LAT :: 'd
  GARAGE_LON :: 'd
  FIELD_LAT :: 'd
  FIELD_LON :: 'd
  GAS_PRICE_PER_LITER :: 'd
  KM_PER_LITER :: 'd
  haversine :: "'d \<Rightarrow> 'd \<Rightarrow> 'd \<Rightarrow> 'd \<Rightarrow> 'd"
  double_zero :: 'd
  double_add :: "'d \<Rightarrow> 'd \<Rightarrow> 'd"
  double_mul :: "'d \<Rightarrow> 'd \<Rightarrow> 'd"
  double_div :: "'d \<Rightarrow> 'd \<Rightarrow> 'd"
  float_of_int :: "cint \<Rightarrow> 'f"
  int_of_float :: "'f \<Rightarrow> cint"
  float_one :: 'f
  float_sub :: "'f \<Rightarrow> 'f \<Rightarrow> 'f"
  float_less :: "'f \<Rightarrow> 'f \<Rightarrow> bool"
  load_entities_from_csv :: "string \<Rightarrow> cpp_exception + 'd Entity list"
  mt19937 :: "nat \<Rightarrow> 'g"
  uniform_int_distribution :: "'g \<Rightarrow> cint \<times> 'g"
  knapsack_metal_eval :: "'f MetalEvalIn \<Rightarrow> ((nat \<Rightarrow> 'f) \<times> (nat \<Rightarrow> 'f)) option"
  heap_exhausted :: bool

section \<open>Candidate generation (lines 65-81)\<close>

text \<open>One pass of the inner loop body for item \<open>i\<close> of candidate \<open>c\<close>; the state is
  the engine, \<^verbatim>\<open>approxCrew\<close> and the batch \<^verbatim>\<open>cand\<close>.\<close>

definition assign_lane ::
  "('g, 'f, 'd) Platform \<Rightarrow> 'f list \<Rightarrow> nat \<Rightarrow> nat \<Rightarrow> nat \<Rightarrow> 'g \<times> cint \<times> byte list \<Rightarrow> 'g \<times> cint \<times> byte list" where
  "assign_lane P weights bytes_per_cand c i st =
     (case st of (rng, approxCrew, cand) \<Rightarrow>
        (case uniform_int_distribution P rng of (b, rng') \<Rightarrow>
           let lane = (if b \<noteq> 0 then 1 else 0 :: lane);
               lane' = (if lane = 1 \<and> MAX_UNITS_PER_GROUP P <s approxCrew + int_of_float P (weights ! i)
                        then 0 else lane);
               approxCrew' = (if lane' = 1 then approxCrew + int_of_float P (weights ! i) else approxCrew)
           in (rng', approxCrew', set_lane bytes_per_cand cand c i lane')))"

definition gen_candidate ::
  "('g, 'f, 'd) Platform \<Rightarrow> 'f list \<Rightarrow> nat \<Rightarrow> nat \<Rightarrow> nat \<Rightarrow> 'g \<times> byte list \<Rightarrow> 'g \<times> byte list" where
  "gen_candidate P weights num_items bytes_per_cand c st =
     (case st of (rng, cand) \<Rightarrow>
        (case fold (assign_lane P weights bytes_per_cand c) [0..<num_items] (rng, 0, cand) of
           (rng', approxCrew, cand') \<Rightarrow> (rng', cand')))"

definition gen_candidates ::
  "('g, 'f, 'd) Platform \<Rightarrow> 'f list \<Rightarrow> nat \<Rightarrow> nat \<Rightarrow> nat \<Rightarrow> 'g \<Rightarrow> 'g \<times> byte list" where
  "gen_candidates P weights num_items num_candidates bytes_per_cand rng =
     fold (gen_candidate P weights num_items bytes_per_cand) [0..<num_candidates]
       (rng, replicate (num_candidates * bytes_per_cand) 0)"

text \<open>The value \<^verbatim>\<open>approxCrew\<close> has when the inner loop reaches item \<open>k\<close> of
  candidate \<open>c\<close>, read back from the batch: the 32-bit sum of \<^verbatim>\<open>(int)weights[j]\<close>
  over the earlier items of the candidate whose lane is 1.\<close>

definition running_load ::
  "('g, 'f, 'd) Platform \<Rightarrow> 'f list \<Rightarrow> nat \<Rightarrow> byte list \<Rightarrow> nat \<Rightarrow> nat \<Rightarrow> cint" where
  "running_load P weights bytes_per_cand cand c k =
     sum_list (map (\<lambda>j. if decode_lane bytes_per_cand cand c j = 1 then int_of_float P (weights ! j) else 0)
                 [0..<k])"

text \<open>What the bias establishes for the first \<open>k\<close> items of candidate \<open>c\<close>: each lane
  is 0 or 1, an item with lane 1 passed the test of line 77 when it was assigned, and
  where every draw is nonzero an item that passes the test has lane 1.\<close>

definition lanes_fit ::
  "('g, 'f, 'd) Platform \<Rightarrow> 'f list \<Rightarrow> nat \<Rightarrow> byte list \<Rightarrow> nat \<Rightarrow> nat \<Rightarrow> bool" where
  "lanes_fit P weights bpc cand c k \<longleftrightarrow>
     (\<forall>i<k. (decode_lane bpc cand c i = 0 \<or> decode_lane bpc cand c i = 1) \<and>
            (decode_lane bpc cand c i = 1 \<longrightarrow>
               \<not> MAX_UNITS_PER_GROUP P <s running_load P weights bpc cand c i + int_of_float P (weights ! i)) \<and>
            ((\<forall>g. fst (uniform_int_distribution P g) \<noteq> 0) \<and>
             \<not> MAX_UNITS_PER_GROUP P <s running_load P weights bpc cand c i + int_of_float P (weights ! i)
               \<longrightarrow> decode_lane bpc cand c i = 1))"

section \<open>The legacy entry point \<^verbatim>\<open>solve_knapsack\<close>\<close>

record 'd GroupTrip =
  group_id :: cint
  item_names :: string
  distance :: 'd
  cost :: 'd
  units :: cint

record 'd KnapsackSolution =
  trips :: "'d GroupTrip list"
  num_trips :: cint
  total_units :: cint
  shortfall :: cint
  total_cost :: 'd

text \<open>The locals that the main loop carries (lines 31-39). \<^verbatim>\<open>picked\<close> is a
  vector of \<^verbatim>\<open>entities.size()\<close> zeros, read and written below that size only;
  it is the map from an index to its flag.\<close>

record 'g search =
  remaining :: cint
  picked :: "nat \<Rightarrow> cint"
  trip_list :: "nat list list"
  cursor :: nat
  rng :: 'g

text \<open>Lines 43-46: up to 15 unpicked entities with positive units, from the cursor on.\<close>

function form_block :: "'d Entity list \<Rightarrow> (nat \<Rightarrow> cint) \<Rightarrow> nat \<Rightarrow> nat list \<Rightarrow> nat list" where
  "form_block entities pk i blockIdx =
     (if i < length entities \<and> length blockIdx < 15
      then form_block entities pk (Suc i)
             (if pk i = 0 \<and> 0 <s resourceUnits (entities ! i) then blockIdx @ [i] else blockIdx)
      else blockIdx)"
  by pat_completeness auto
termination
  by (relation "measure (\<lambda>(entities, pk, i, blockIdx). length entities - i)") auto

declare form_block.simps [simp del]

text \<open>Lines 55-61: the arrays handed to the evaluator.\<close>

definition block_values :: "('g, 'f, 'd) Platform \<Rightarrow> 'd Entity list \<Rightarrow> nat list \<Rightarrow> 'f list" where
  "block_values P entities blockIdx =
     map (\<lambda>i. float_of_int P (smax 1 (priority (entities ! i)))) blockIdx"

definition block_weights :: "('g, 'f, 'd) Platform \<Rightarrow> 'd Entity list \<Rightarrow> nat list \<Rightarrow> 'f list" where
  "block_weights P entities blockIdx =
     map (\<lambda>i. float_of_int P (smax 0 (resourceUnits (entities ! i)))) blockIdx"

text \<open>The units of block item \<open>i\<close>, \<^verbatim>\<open>std::max(0, v.resourceUnits)\<close> of lines 60
  and 122, before line 60 stores them in a \<^verbatim>\<open>float\<close>; and the units that the
  first \<open>k\<close> items of candidate \<open>c\<close> with lane 1 add up to, as an integer.\<close>

definition unit_weight :: "'d Entity list \<Rightarrow> nat list \<Rightarrow> nat \<Rightarrow> cint" where
  "unit_weight entities blockIdx i = smax 0 (resourceUnits (entities ! (blockIdx ! i)))"

definition unit_load :: "'d Entity list \<Rightarrow> nat list \<Rightarrow> nat \<Rightarrow> byte list \<Rightarrow> nat \<Rightarrow> nat \<Rightarrow> int" where
  "unit_load entities blockIdx bytes_per_cand cand c k =
     sum_list (map (\<lambda>j. if decode_lane bytes_per_cand cand c j = 1
                         then sint (unit_weight entities blockIdx j) else 0) [0..<k])"

text \<open>Two conditions on the block under which line 77 computes with the units
  themselves: every weight survives the conversion to \<^verbatim>\<open>float\<close> (line 60) and the
  cast back (line 77), and no weight added to a load within the cap leaves the range of
  \<^verbatim>\<open>int\<close>.\<close>

definition weights_exact :: "('g, 'f, 'd) Platform \<Rightarrow> 'd Entity list \<Rightarrow> nat list \<Rightarrow> bool" where
  "weights_exact P entities blockIdx \<longleftrightarrow>
     (\<forall>i<length blockIdx.
        int_of_float P (float_of_int P (unit_weight entities blockIdx i)) = unit_weight entities blockIdx i)"

definition weights_small :: "('g, 'f, 'd) Platform \<Rightarrow> 'd Entity list \<Rightarrow> nat list \<Rightarrow> bool" where
  "weights_small P entities blockIdx \<longleftrightarrow>
     (\<forall>i<length blockIdx.
        sint (unit_weight entities blockIdx i) + max 0 (sint (MAX_UNITS_PER_GROUP P)) < 2 ^ 31)"

text \<open>Lines 43-81 of one round: the block, \<^verbatim>\<open>bytes_per_cand\<close> (line 52), the two
  arrays, the engine afterwards and the batch of 64 candidates; \<open>None\<close> is the
  \<^verbatim>\<open>break\<close> of line 47.\<close>

definition candidate_batch ::
  "('g, 'f, 'd) Platform \<Rightarrow> 'd Entity list \<Rightarrow> 'g search
     \<Rightarrow> (nat list \<times> nat \<times> 'f list \<times> 'f list \<times> 'g \<times> byte list) option" where
  "candidate_batch P entities st =
     (let blockIdx = form_block entities (picked st) (cursor st) [] in
      if blockIdx = [] then None
      else
        let num_items = length blockIdx;
            num_candidates = 64;
            bytes_per_cand = (num_items + 3) div 4;
            vals = block_values P entities blockIdx;
            weights = block_weights P entities blockIdx
        in (case gen_candidates P weights num_items num_candidates bytes_per_cand (rng st) of
              (rng', cand) \<Rightarrow> Some (blockIdx, bytes_per_cand, vals, weights, rng', cand)))"

text \<open>Lines 109-114: the first candidate of the highest score \<^verbatim>\<open>obj - pen\<close>.\<close>

definition best_candidate ::
  "('g, 'f, 'd) Platform \<Rightarrow> (nat \<Rightarrow> 'f) \<Rightarrow> (nat \<Rightarrow> 'f) \<Rightarrow> nat \<Rightarrow> nat" where
  "best_candidate P obj pen num_candidates =
     fst (fold (\<lambda>c (best, bestScore).
                  let s = float_sub P (obj c) (pen c)
                  in if float_less P bestScore s then (c, s) else (best, bestScore))
            [1..<num_candidates] (0, float_sub P (obj 0) (pen 0)))"

text \<open>Lines 116-124: the trip of the best candidate and its crew.\<close>

definition decode_trip ::
  "'d Entity list \<Rightarrow> nat list \<Rightarrow> nat \<Rightarrow> byte list \<Rightarrow> nat \<Rightarrow> nat list \<times> cint" where
  "decode_trip entities blockIdx bytes_per_cand cand best =
     fold (\<lambda>i (trip, crew).
             if decode_lane bytes_per_cand cand best i = 1
             then (trip @ [blockIdx ! i], crew + smax 0 (resourceUnits (entities ! (blockIdx ! i))))
             else (trip, crew))
       [0..<length blockIdx] ([], 0)"

text \<open>Lines 127-130: the fallback, block items in order while the crew is under the cap.\<close>

function greedy_trip ::
  "'d Entity list \<Rightarrow> cint \<Rightarrow> nat list \<Rightarrow> nat \<Rightarrow> nat list \<Rightarrow> cint \<Rightarrow> nat list \<times> cint" where
  "greedy_trip entities cap blockIdx i trip crew =
     (if i < length blockIdx \<and> crew <s cap
      then greedy_trip entities cap blockIdx (Suc i) (trip @ [blockIdx ! i])
             (crew + smax 0 (resourceUnits (entities ! (blockIdx ! i))))
      else (trip, crew))"
  by pat_completeness auto
termination
  by (relation "measure (\<lambda>(entities, cap, blockIdx, i, trip, crew). length blockIdx - i)") auto

declare greedy_trip.simps [simp del]

text \<open>Line 134.\<close>

definition mark_picked :: "nat list \<Rightarrow> (nat \<Rightarrow> cint) \<Rightarrow> nat \<Rightarrow> cint" where
  "mark_picked trip pk = fold (\<lambda>idx pk'. pk'(idx := 1)) trip pk"

text \<open>Line 139.\<close>

function advance_cursor :: "'d Entity list \<Rightarrow> (nat \<Rightarrow> cint) \<Rightarrow> nat \<Rightarrow> nat" where
  "advance_cursor entities pk cur =
     (if cur < length entities \<and> pk cur \<noteq> 0 then advance_cursor entities pk (Suc cur) else cur)"
  by pat_completeness auto
termination
  by (relation "measure (\<lambda>(entities, pk, cur). length entities - cur)") auto

declare advance_cursor.simps [simp del]

text \<open>The body of the main loop (lines 42-139): the batch of the round, then lines
  83-139; \<open>None\<close> is a \<^verbatim>\<open>break\<close>.\<close>

definition trip_round ::
  "('g, 'f, 'd) Platform \<Rightarrow> 'd Entity list \<Rightarrow> 'g search \<Rightarrow> 'g search option" where
  "trip_round P entities st =
     (case candidate_batch P entities st of
        None \<Rightarrow> None
      | Some (blockIdx, bytes_per_cand, vals, weights, rng', cand) \<Rightarrow>
          let num_items = length blockIdx;
              num_groups = 1;
              num_candidates = 64;
              group_caps_arr = [float_of_int P (MAX_UNITS_PER_GROUP P)]
          in (case (case knapsack_metal_eval P
                          (MetalEvalIn cand num_items num_candidates vals weights group_caps_arr num_groups
                             (float_one P) (float_one P)) of
                     Some (obj, pen) \<Rightarrow>
                       decode_trip entities blockIdx bytes_per_cand cand (best_candidate P obj pen num_candidates)
                   | None \<Rightarrow> greedy_trip entities (MAX_UNITS_PER_GROUP P) blockIdx 0 [] 0) of
               (trip, crew) \<Rightarrow>
                 if trip = [] then None
                 else
                   let pk = mark_picked trip (picked st)
                   in Some (st\<lparr>remaining := remaining st - crew,
                               picked := pk,
                               trip_list := trip_list st @ [trip],
                               cursor := advance_cursor entities pk (cursor st),
                               rng := rng'\<rparr>)))"

text \<open>The number of entities not picked yet: what every round of the loop lowers.\<close>

definition unpicked :: "'d Entity list \<Rightarrow> (nat \<Rightarrow> cint) \<Rightarrow> nat" where
  "unpicked entities pk = card {i. i < length entities \<and> pk i = 0}"

function trip_loop ::
  "('g, 'f, 'd) Platform \<Rightarrow> 'd Entity list \<Rightarrow> 'g search \<Rightarrow> 'g search" where
  "trip_loop P entities st =
     (if 0 <s remaining st \<and> cursor st < length entities
      then (case trip_round P entities st of None \<Rightarrow> st | Some st' \<Rightarrow> trip_loop P entities st')
      else st)"
  by pat_completeness auto

text \<open>Lines 150-190: the result record.\<close>

definition visit ::
  "('g, 'f, 'd) Platform \<Rightarrow> 'd Entity list \<Rightarrow> nat list \<Rightarrow> nat \<Rightarrow> string \<times> 'd \<times> 'd \<times> 'd \<times> cint
     \<Rightarrow> string \<times> 'd \<times> 'd \<times> 'd \<times> cint" where
  "visit P entities trip j acc =
     (case acc of (ss, dsum, prev_lat, prev_lon, crew) \<Rightarrow>
        let v = entities ! (trip ! j)
        in ((if j > 0 then ss @ '','' else ss) @ name v,
            double_add P dsum (haversine P prev_lat prev_lon (latitude v) (longitude v)),
            latitude v, longitude v,
            crew + smax 0 (resourceUnits v)))"

definition make_trip ::
  "('g, 'f, 'd) Platform \<Rightarrow> 'd Entity list \<Rightarrow> nat \<Rightarrow> nat list \<Rightarrow> 'd GroupTrip" where
  "make_trip P entities ti trip =
     (case fold (visit P entities trip) [0..<length trip]
             ([], double_zero P, GARAGE_LAT P, GARAGE_LON P, 0) of
        (ss, dsum, prev_lat, prev_lon, crew) \<Rightarrow>
          let dist1 = double_add P dsum (haversine P prev_lat prev_lon (FIELD_LAT P) (FIELD_LON P));
              dist2 = double_add P dist1
                        (haversine P (FIELD_LAT P) (FIELD_LON P) (GARAGE_LAT P) (GARAGE_LON P))
          in \<lparr>group_id = of_nat ti + 1,
              item_names = ss,
              distance = dist2,
              cost = double_mul P dist2 (double_div P (GAS_PRICE_PER_LITER P) (KM_PER_LITER P)),
              units = crew\<rparr>)"

definition convert_trip ::
  "('g, 'f, 'd) Platform \<Rightarrow> 'd Entity list \<Rightarrow> nat list list \<Rightarrow> nat \<Rightarrow> 'd GroupTrip list \<times> cint \<times> 'd
     \<Rightarrow> 'd GroupTrip list \<times> cint \<times> 'd" where
  "convert_trip P entities tripv ti acc =
     (case acc of (arr, tu, tc) \<Rightarrow>
        let t = make_trip P entities ti (tripv ! ti)
        in (arr @ [t], tu + units t, double_add P tc (cost t)))"

definition to_solution ::
  "('g, 'f, 'd) Platform \<Rightarrow> 'd Entity list \<Rightarrow> cint \<Rightarrow> nat list list \<Rightarrow> 'd KnapsackSolution" where
  "to_solution P entities target_team_size tripv =
     (case fold (convert_trip P entities tripv) [0..<length tripv] ([], 0, double_zero P) of
        (arr, tu, tc) \<Rightarrow>
          \<lparr>trips = arr,
           num_trips = of_nat (length tripv),
           total_units = tu,
           shortfall = smax 0 (target_team_size - tu),
           total_cost = tc\<rparr>)"

text \<open>The \<^verbatim>\<open>try\<close> block of \<^verbatim>\<open>solve_knapsack\<close>; \<open>Inl e\<close> is the exception \<open>e\<close>
  leaving the block, \<open>Inr None\<close> the return of a null pointer.\<close>

definition solve_knapsack_try ::
  "('g, 'f, 'd) Platform \<Rightarrow> string option \<Rightarrow> cint \<Rightarrow> cpp_exception + 'd KnapsackSolution option" where
  "solve_knapsack_try P csv_path target_team_size =
     (case csv_path of
        None \<Rightarrow> Inr None
      | Some path \<Rightarrow>
          (case load_entities_from_csv P path of
             Inl e \<Rightarrow> Inl e
           | Inr entities \<Rightarrow>
               if entities = [] then Inr None
               else
                 let st = trip_loop P entities
                            \<lparr>remaining = smax 0 target_team_size,
                             picked = (\<lambda>i. 0),
                             trip_list = [],
                             cursor = 0,
                             rng = mt19937 P 12345\<rparr>
                 in if heap_exhausted P then Inl bad_alloc
                    else Inr (Some (to_solution P entities target_team_size (trip_list st)))))"

text \<open>\<^verbatim>\<open>solve_knapsack\<close> with its \<^verbatim>\<open>catch (...)\<close>: what the caller sees.\<close>

definition solve_knapsack ::
  "('g, 'f, 'd) Platform \<Rightarrow> string option \<Rightarrow> cint \<Rightarrow> cpp_exception + 'd KnapsackSolution option" where
  "solve_knapsack P csv_path target_team_size =
     (case solve_knapsack_try P csv_path target_team_size of
        Inl e \<Rightarrow> Inr None
      | Inr r \<Rightarrow> Inr r)"

section \<open>The structured entry point \<^verbatim>\<open>solve_knapsack_v2_from_json\<close>\<close>

text \<open>Modelled from the spec: the types \<^verbatim>\<open>v2::Config\<close>, \<^verbatim>\<open>v2::HostSoA\<close>,
  \<^verbatim>\<open>v2::SolverOptions\<close> and \<^verbatim>\<open>v2::BeamResult\<close> (v2/Config.h, v2/Data.h,
  v2/Engine.h) are not under src/. They carry the fields that knapsack_v2.cpp reads or
  writes, and for \<open>Config\<close> the fields of the spec's data model.\<close>

record Item =
  item_id :: string
  item_weights :: "real list"
  item_value :: real

record Config =
  mode :: string
  items :: "Item list"
  capacities :: "real list"
  objective_weights :: "real list"
  penalty_coeff :: real
  penalty_power :: real

record HostSoA =
  count :: int
  soa_values :: "real list"
  soa_weights :: "real list list"

record SolverOptions =
  beam_width :: cint
  iters :: cint
  seed :: "32 word"
  debug :: bool
  enable_dominance_filter :: bool
  dom_eps :: real
  dom_use_surrogate :: bool

record BeamResult =
  best_select :: "bool list"
  objective :: real
  penalty :: real
  total :: real

text \<open>\<^verbatim>\<open>KnapsackSolutionV2\<close> of knapsack_cpu.h; \<open>select\<close> is a pointer, \<open>None\<close> when
  null.\<close>

record KnapsackSolutionV2 =
  num_items :: int
  select :: "int list option"
  objective :: real
  penalty :: real
  total :: real

text \<open>
  What knapsack_v2.cpp calls: the three stages of the v2 engine (each \<open>None\<close> when
  it returns false), the default \<^verbatim>\<open>SolverOptions\<close>, \<^verbatim>\<open>strtod\<close> (the value and
  the number of characters it consumed, 0 when there is no conversion; an infinity
  or a NaN is outside the model), what a cast of a \<^verbatim>\<open>double\<close> to \<^verbatim>\<open>int\<close> or to
  \<^verbatim>\<open>unsigned int\<close> yields when the truncated value does not fit the type (C++
  leaves it undefined), and the allocator (\<^verbatim>\<open>malloc\<close> or \<^verbatim>\<open>calloc\<close>
  returning null).
\<close>

record V2 =
  LoadConfigFromJsonString :: "string \<Rightarrow> Config option"
  BuildHostSoA :: "Config \<Rightarrow> HostSoA option"
  SolveBeamSelect :: "Config \<Rightarrow> HostSoA \<Rightarrow> SolverOptions \<Rightarrow> BeamResult option"
  default_SolverOptions :: SolverOptions
  strtod :: "string \<Rightarrow> real \<times> nat"
  int_cast_out_of_range :: "real \<Rightarrow> cint"
  uint_cast_out_of_range :: "real \<Rightarrow> 32 word"
  malloc_fails :: bool
  calloc_fails :: bool

text \<open>A call either returns a value or faults (a store through a null pointer, a read
  past the end of a vector).\<close>

datatype 'a exec = Returns 'a | Fault

text \<open>\<^verbatim>\<open>alloc_solution_v2\<close>, lines 15-24. \<^verbatim>\<open>calloc\<close> of a negative count, which
  \<^verbatim>\<open>(size_t)n\<close> makes huge, returns null.\<close>

definition calloc_ints :: "V2 \<Rightarrow> int \<Rightarrow> int list option" where
  "calloc_ints H n = (if calloc_fails H \<or> n < 0 then None else Some (replicate (nat n) 0))"

definition alloc_solution_v2 :: "V2 \<Rightarrow> int \<Rightarrow> KnapsackSolutionV2 option" where
  "alloc_solution_v2 H n =
     (if malloc_fails H then None
      else Some \<lparr>num_items = n, select = calloc_ints H n, objective = 0, penalty = 0, total = 0\<rparr>)"

text \<open>\<^verbatim>\<open>std::string::find(key, pos)\<close>, \<^verbatim>\<open>isspace\<close> in the C locale and the loop
  that skips white space (lines 32 and 45).\<close>

function str_find :: "string \<Rightarrow> string \<Rightarrow> nat \<Rightarrow> nat option" where
  "str_find s key pos =
     (if length s < pos + length key then None
      else if take (length key) (drop pos s) = key then Some pos
      else str_find s key (Suc pos))"
  by pat_completeness auto
termination
  by (relation "measure (\<lambda>(s, key, pos). Suc (length s) - pos)") auto

declare str_find.simps [simp del]

definition isspace :: "char \<Rightarrow> bool" where
  "isspace ch \<longleftrightarrow> ch \<in> {CHR 0x20, CHR 0x09, CHR 0x0A, CHR 0x0B, CHR 0x0C, CHR 0x0D}"

function skip_space :: "string \<Rightarrow> nat \<Rightarrow> nat" where
  "skip_space s pos = (if pos < length s \<and> isspace (s ! pos) then skip_space s (Suc pos) else pos)"
  by pat_completeness auto
termination
  by (relation "measure (\<lambda>(s, pos). length s - pos)") auto

declare skip_space.simps [simp del]

text \<open>\<^verbatim>\<open>parse_number_after\<close> (lines 26-38) and \<^verbatim>\<open>parse_bool_after\<close> (lines 40-49);
  \<open>None\<close> is the return of false, which leaves \<^verbatim>\<open>*out\<close> alone.\<close>

definition parse_number_after :: "V2 \<Rightarrow> string \<Rightarrow> string \<Rightarrow> real option" where
  "parse_number_after H s key =
     (case str_find s key 0 of
        None \<Rightarrow> None
      | Some pos \<Rightarrow>
          (case str_find s '':'' pos of
             None \<Rightarrow> None
           | Some pos1 \<Rightarrow>
               (case strtod H (drop (skip_space s (Suc pos1)) s) of
                  (v, used) \<Rightarrow> if used = 0 then None else Some v)))"

definition parse_bool_after :: "string \<Rightarrow> string \<Rightarrow> bool option" where
  "parse_bool_after s key =
     (case str_find s key 0 of
        None \<Rightarrow> None
      | Some pos \<Rightarrow>
          (case str_find s '':'' pos of
             None \<Rightarrow> None
           | Some pos1 \<Rightarrow>
               let pos2 = skip_space s (Suc pos1)
               in if take 4 (drop pos2 s) = ''true'' then Some True
                  else if take 5 (drop pos2 s) = ''false'' then Some False
                  else None))"

text \<open>The casts \<^verbatim>\<open>(int)v\<close> and \<^verbatim>\<open>(unsigned int)v\<close> of lines 74-76: the value
  truncated towards zero when it fits the 32-bit type, the platform's result
  otherwise.\<close>

definition truncate :: "real \<Rightarrow> int" where
  "truncate x = (if 0 \<le> x then \<lfloor>x\<rfloor> else \<lceil>x\<rceil>)"

definition int_of_double :: "V2 \<Rightarrow> real \<Rightarrow> cint" where
  "int_of_double H v =
     (if - (2 ^ 31) \<le> truncate v \<and> truncate v < 2 ^ 31 then word_of_int (truncate v)
      else int_cast_out_of_range H v)"

definition uint_of_double :: "V2 \<Rightarrow> real \<Rightarrow> 32 word" where
  "uint_of_double H v =
     (if 0 \<le> truncate v \<and> truncate v < 2 ^ 32 then word_of_int (truncate v)
      else uint_cast_out_of_range H v)"

text \<open>A key as the source writes it, between double quotes.\<close>

definition quoted :: "string \<Rightarrow> string" where
  "quoted k = CHR 0x22 # k @ [CHR 0x22]"

text \<open>Lines 69-82: the options handed to the solver.\<close>

definition parse_options :: "V2 \<Rightarrow> string option \<Rightarrow> SolverOptions" where
  "parse_options H options_json =
     (let opt = default_SolverOptions H in
      case options_json of
        None \<Rightarrow> opt
      | Some s \<Rightarrow>
          if s = [] then opt
          else
            let opt = (case parse_number_after H s (quoted ''beam_width'') of
                         Some v \<Rightarrow> opt\<lparr>beam_width := int_of_double H v\<rparr> | None \<Rightarrow> opt);
                opt = (case parse_number_after H s (quoted ''iters'') of
                         Some v \<Rightarrow> opt\<lparr>iters := int_of_double H v\<rparr> | None \<Rightarrow> opt);
                opt = (case parse_number_after H s (quoted ''seed'') of
                         Some v \<Rightarrow> opt\<lparr>seed := uint_of_double H v\<rparr> | None \<Rightarrow> opt);
                opt = (case parse_bool_after s (quoted ''debug'') of
                         Some b \<Rightarrow> opt\<lparr>debug := b\<rparr> | None \<Rightarrow> opt);
                opt = (case parse_bool_after s (quoted ''dom_enable'') of
                         Some b \<Rightarrow> opt\<lparr>enable_dominance_filter := b\<rparr> | None \<Rightarrow> opt);
                opt = (case parse_number_after H s (quoted ''dom_eps'') of
                         Some v \<Rightarrow> opt\<lparr>dom_eps := v\<rparr> | None \<Rightarrow> opt);
                opt = (case parse_bool_after s (quoted ''dom_surrogate'') of
                         Some b \<Rightarrow> opt\<lparr>dom_use_surrogate := b\<rparr> | None \<Rightarrow> opt)
            in opt)"

text \<open>Line 90, one pass: \<^verbatim>\<open>sol->select[i] = r.best_select[i] ? 1 : 0\<close>.\<close>

definition store_select :: "bool list \<Rightarrow> nat \<Rightarrow> int list option exec \<Rightarrow> int list option exec" where
  "store_select best i acc =
     (case acc of
        Fault \<Rightarrow> Fault
      | Returns None \<Rightarrow> Fault
      | Returns (Some xs) \<Rightarrow>
          if i < length best \<and> i < length xs
          then Returns (Some (xs[i := (if best ! i then 1 else 0)]))
          else Fault)"

text \<open>
  \<^verbatim>\<open>solve_knapsack_v2_from_json\<close>, lines 51-97. \<open>out_solution\<close> is \<open>None\<close> for a
  null pointer and \<open>Some p\<close> for a pointer to a cell that holds \<open>p\<close>; the result is the
  return code and the cell afterwards.
\<close>

definition solve_knapsack_v2_from_json ::
  "V2 \<Rightarrow> string option \<Rightarrow> string option \<Rightarrow> KnapsackSolutionV2 option option
     \<Rightarrow> (int \<times> KnapsackSolutionV2 option option) exec" where
  "solve_knapsack_v2_from_json H json_config options_json out_solution =
     (case out_solution of
        None \<Rightarrow> Returns (- 1, None)
      | Some previous \<Rightarrow>
          (case json_config of
             None \<Rightarrow> Returns (- 2, Some None)
           | Some cfg_text \<Rightarrow>
               (case LoadConfigFromJsonString H cfg_text of
                  None \<Rightarrow> Returns (- 3, Some None)
                | Some cfg \<Rightarrow>
                    (case BuildHostSoA H cfg of
                       None \<Rightarrow> Returns (- 4, Some None)
                     | Some soa \<Rightarrow>
                         if mode cfg \<noteq> ''select'' then Returns (- 5, Some None)
                         else
                           (case SolveBeamSelect H cfg soa (parse_options H options_json) of
                              None \<Rightarrow> Returns (- 6, Some None)
                            | Some r \<Rightarrow>
                                (case alloc_solution_v2 H (count soa) of
                                   None \<Rightarrow> Returns (- 7, Some None)
                                 | Some sol \<Rightarrow>
                                     (case fold (store_select (best_select r)) [0..<nat (count soa)]
                                             (Returns (select sol)) of
                                        Fault \<Rightarrow> Fault
                                      | Returns sel \<Rightarrow>
                                          Returns (0, Some (Some (sol\<lparr>select := sel,
                                                                      objective := BeamResult.objective r,
                                                                      penalty := BeamResult.penalty r,
                                                                      total := BeamResult.total r\<rparr>))))))))))"

text \<open>
  Modelled from the spec: \<^verbatim>\<open>v2::SolveBeamSelect\<close> (v2/Engine.h) is not under src/.
  By sections 4.4 and 4.6 of the spec the search ends with the single best candidate
  of the final beam, or fails; the extractor decodes the winning candidate's lane
  vector (two bits per item, lane 1 selected) into per-item flags, recomputes
  objective and penalty from the evaluator's formulas and reports
  total = objective - penalty. The search and the evaluator are parameters.
\<close>

definition SolutionExtractor ::
  "(Config \<Rightarrow> HostSoA \<Rightarrow> bool list \<Rightarrow> real \<times> real) \<Rightarrow> Config \<Rightarrow> HostSoA \<Rightarrow> byte list \<Rightarrow> BeamResult" where
  "SolutionExtractor evaluator cfg soa winner =
     (let n = nat (count soa);
          flags = map (\<lambda>i. decode_lane ((n + 3) div 4) winner 0 i = 1) [0..<n]
      in case evaluator cfg soa flags of
           (obj, pen) \<Rightarrow> \<lparr>best_select = flags, objective = obj, penalty = pen, total = obj - pen\<rparr>)"

definition SolveBeamSelect_spec ::
  "(Config \<Rightarrow> HostSoA \<Rightarrow> bool list \<Rightarrow> real \<times> real) \<Rightarrow> (Config \<Rightarrow> HostSoA \<Rightarrow> SolverOptions \<Rightarrow> byte list option)
     \<Rightarrow> Config \<Rightarrow> HostSoA \<Rightarrow> SolverOptions \<Rightarrow> BeamResult option" where
  "SolveBeamSelect_spec evaluator search cfg soa opt =
     map_option (SolutionExtractor evaluator cfg soa) (search cfg soa opt)"

text \<open>The flags a returned solution reports, read from its \<open>select\<close> array.\<close>

definition selected :: "KnapsackSolutionV2 \<Rightarrow> bool list" where
  "selected sol = (case select sol of None \<Rightarrow> [] | Some xs \<Rightarrow> map (\<lambda>x. x \<noteq> 0) xs)"

text \<open>
  Modelled from the spec: the batch evaluator (v2/Engine.h) is not under src/.
  By section 4.2 of the spec the objective is the sum of the value terms of the
  selected items and the penalty the sum over the groups of
  \<open>coeff * max(0, load_g - capacity_g) ^ power\<close>, where \<open>load_g\<close> is the weight of
  the selected items in dimension \<open>g\<close>; the power is \<open>powr\<close>, for which an overage of
  0 gives the term 0, as the spec's invariant (penalty 0 when every load is within
  its capacity) asks.
\<close>

definition BatchEvaluator :: "Config \<Rightarrow> HostSoA \<Rightarrow> bool list \<Rightarrow> real \<times> real" where
  "BatchEvaluator cfg soa flags =
     (let chosen = filter (\<lambda>i. flags ! i) [0..<length flags];
          load = (\<lambda>g. sum_list (map (\<lambda>i. soa_weights soa ! i ! g) chosen))
      in (sum_list (map (\<lambda>i. soa_values soa ! i) chosen),
          sum_list (map (\<lambda>g. penalty_coeff cfg * (max 0 (load g - capacities cfg ! g)) powr penalty_power cfg)
                      [0..<length (capacities cfg)])))"

section \<open>Example platforms\<close>

text \<open>
  Concrete platforms on which the theorems below are instantiated. The conversion
  \<^verbatim>\<open>int\<close> to \<^verbatim>\<open>float\<close> is the one of IEEE 754 single precision (24 significant
  bits, ties to even); a float is represented by its value. The cast back truncates,
  and gives \<^verbatim>\<open>INT_MIN\<close> when the value does not fit, as the x86 conversion
  instruction does. The arithmetic of the example on \<^verbatim>\<open>double\<close> is exact on the
  values that occur.
\<close>

function excess_bits :: "nat \<Rightarrow> nat" where
  "excess_bits m = (if m < 2 ^ 24 then 0 else Suc (excess_bits (m div 2)))"
  by pat_completeness auto
termination
  by (relation "measure (\<lambda>m. m)") auto

declare excess_bits.simps [simp del]

definition round_float32 :: "int \<Rightarrow> int" where
  "round_float32 n =
     (let m = nat \<bar>n\<bar>;
          e = excess_bits m;
          q = m div 2 ^ e;
          r = m mod 2 ^ e;
          q' = (if 2 * r > 2 ^ e \<or> (2 * r = 2 ^ e \<and> odd q) then q + 1 else q)
      in sgn n * int (q' * 2 ^ e))"

definition ieee_float_of_int :: "cint \<Rightarrow> real" where
  "ieee_float_of_int n = real_of_int (round_float32 (sint n))"

definition x86_int_of_float :: "real \<Rightarrow> cint" where
  "x86_int_of_float x =
     (if - (2 ^ 31) \<le> truncate x \<and> truncate x < 2 ^ 31 then word_of_int (truncate x)
      else 0x80000000)"

definition ieee_platform :: "cint \<Rightarrow> real Entity list \<Rightarrow> (nat, real, real) Platform" where
  "ieee_platform cap entities =
     \<lparr>MAX_UNITS_PER_GROUP = cap,
      GARAGE_LAT = 0, GARAGE_LON = 0, FIELD_LAT = 1, FIELD_LON = 1,
      GAS_PRICE_PER_LITER = 2, KM_PER_LITER = 8,
      haversine = (\<lambda>lat1 lon1 lat2 lon2. \<bar>lat1 - lat2\<bar> + \<bar>lon1 - lon2\<bar>),
      double_zero = 0,
      double_add = (+),
      double_mul = (*),
      double_div = (/),
      float_of_int = ieee_float_of_int,
      int_of_float = x86_int_of_float,
      float_one = 1,
      float_sub = (-),
      float_less = (<),
      load_entities_from_csv =
        (\<lambda>path. if path = ''empty.csv'' then Inr []
                else if path = ''missing.csv'' then Inl (runtime_error ''cannot open'')
                else Inr entities),
      mt19937 = (\<lambda>s. s),
      uniform_int_distribution = (\<lambda>g. (1, Suc g)),
      knapsack_metal_eval = (\<lambda>inp. None),
      heap_exhausted = False\<rparr>"

definition demo_entities :: "real Entity list" where
  "demo_entities =
     [\<lparr>name = ''ann'', latitude = 1, longitude = 0, priority = 2, resourceUnits = 3\<rparr>,
      \<lparr>name = ''bob'', latitude = 0, longitude = 1, priority = 0, resourceUnits = 4\<rparr>]"

definition demo_platform :: "(nat, real, real) Platform" where
  "demo_platform = ieee_platform 5 demo_entities"

text \<open>An entity whose units the conversion to \<^verbatim>\<open>float\<close> rounds down, and one whose
  units it rounds up to \<open>2 ^ 31\<close>.\<close>

definition rounded_entities :: "real Entity list" where
  "rounded_entities =
     [\<lparr>name = ''big'', latitude = 1, longitude = 0, priority = 1, resourceUnits = 16777217\<rparr>]"

definition huge_entities :: "real Entity list" where
  "huge_entities =
     [\<lparr>name = ''huge'', latitude = 1, longitude = 0, priority = 1, resourceUnits = 2147483647\<rparr>]"

definition demo_evaluator :: "Config \<Rightarrow> HostSoA \<Rightarrow> bool list \<Rightarrow> real \<times> real" where
  "demo_evaluator cfg soa flags =
     (let chosen = filter (\<lambda>i. flags ! i) [0..<length flags];
          load = sum_list (map (\<lambda>i. hd (soa_weights soa ! i)) chosen)
      in (sum_list (map (\<lambda>i. soa_values soa ! i) chosen),
          penalty_coeff cfg * max 0 (load - hd (capacities cfg))))"

definition demo_search :: "Config \<Rightarrow> HostSoA \<Rightarrow> SolverOptions \<Rightarrow> byte list option" where
  "demo_search cfg soa opt = (if count soa = 0 then Some [] else Some [1])"

definition demo_v2 :: V2 where
  "demo_v2 =
     \<lparr>LoadConfigFromJsonString =
        (\<lambda>s. if s = ''{mode: select}'' \<or> s = ''{mode: assign}'' \<or> s = ''{mode: select, items: []}''
             then Some \<lparr>mode = (if s = ''{mode: assign}'' then ''assign'' else ''select''),
                        items = (if s = ''{mode: select, items: []}'' then []
                                 else [\<lparr>item_id = ''a'', item_weights = [3], item_value = 2\<rparr>,
                                       \<lparr>item_id = ''b'', item_weights = [4], item_value = 1\<rparr>]),
                        capacities = [5], objective_weights = [1],
                        penalty_coeff = 1, penalty_power = 1\<rparr>
             else None),
      BuildHostSoA =
        (\<lambda>cfg. Some \<lparr>count = int (length (items cfg)),
                      soa_values = map item_value (items cfg),
                      soa_weights = map item_weights (items cfg)\<rparr>),
      SolveBeamSelect = SolveBeamSelect_spec demo_evaluator demo_search,
      default_SolverOptions =
        \<lparr>beam_width = 8, iters = 4, seed = 1, debug = False,
         enable_dominance_filter = False, dom_eps = 0, dom_use_surrogate = False\<rparr>,
      strtod = (\<lambda>s. (0, 0)),
      int_cast_out_of_range = (\<lambda>v. 0x80000000),
      uint_cast_out_of_range = (\<lambda>v. 0),
      malloc_fails = False,
      calloc_fails = False\<rparr>"

definition demo_v2_spec :: V2 where
  "demo_v2_spec = demo_v2\<lparr>SolveBeamSelect := SolveBeamSelect_spec BatchEvaluator demo_search\<rparr>"

text \<open>The example platform with an accelerator that scores every candidate alike,
  the platforms of the two entities above, and the locals of \<^verbatim>\<open>solve_knapsack\<close>
  when the main loop is entered (lines 31-38) on a platform whose engine is seeded
  with the number itself.\<close>

definition metal_platform :: "(nat, real, real) Platform" where
  "metal_platform =
     demo_platform\<lparr>knapsack_metal_eval := (\<lambda>inp. Some ((\<lambda>c. 1), (\<lambda>c. 0)))\<rparr>"

definition huge_platform :: "(nat, real, real) Platform" where
  "huge_platform = ieee_platform 5 huge_entities"

definition rounded_platform :: "(nat, real, real) Platform" where
  "rounded_platform = ieee_platform 16777216 rounded_entities"

definition start_search :: "cint \<Rightarrow> nat search" where
  "start_search target =
     \<lparr>remaining = smax 0 target, picked = (\<lambda>i. 0), trip_list = [], cursor = 0, rng = 12345\<rparr>"

section \<open>Bit fields of a byte\<close>

lemma and3_nat: "(i::nat) AND 3 = i mod 4"
  using take_bit_eq_mask [of 2 i] by (simp add: take_bit_eq_mod mask_eq_exp_minus_1)

lemma bit_3_word: "bit (3 :: 'a::len word) n \<longleftrightarrow> n < 2 \<and> n < LENGTH('a)"
proof -
  have "(3 :: 'a word) = mask 2"
    by (simp add: mask_eq_exp_minus_1)
  then show ?thesis
    by (auto simp only: bit_mask_iff possible_bit_word)
qed

lemma bit_3_int: "bit (3 :: int) n \<longleftrightarrow> n < 2"
proof -
  have "(3 :: int) = mask 2"
    by (simp add: mask_eq_exp_minus_1)
  then show ?thesis
    by (auto simp only: bit_mask_iff possible_bit_int)
qed

lemma field_written:
  assumes "s \<le> 6"
  shows "drop_bit s (ucast ((b AND NOT (ucast (push_bit s (3 :: 32 word)) :: byte))
            OR ucast (push_bit s (l AND 3 :: 32 word))) :: 32 word) AND 3 = l AND 3"
  using assms by (auto intro!: bit_word_eqI simp: bit_simps bit_3_word bit_3_int)

lemma field_kept:
  assumes "s \<le> 6" "t \<le> 6" "s + 2 \<le> t \<or> t + 2 \<le> s"
  shows "drop_bit t (ucast ((b AND NOT (ucast (push_bit s (3 :: 32 word)) :: byte))
            OR ucast (push_bit s (l AND 3 :: 32 word))) :: 32 word) AND 3
         = drop_bit t (ucast b :: 32 word) AND 3"
  using assms by (auto intro!: bit_word_eqI simp: bit_simps bit_3_word bit_3_int)

lemma length_set_lane [simp]: "length (set_lane bpc cand c i l) = length cand"
  by (simp add: set_lane_def Let_def)

lemma drop2_nat: "drop_bit 2 (i::nat) = i div 4"
  by (simp add: drop_bit_eq_div)

lemma decode_set_lane_same:
  assumes "c * bpc + i div 4 < length cand"
  shows "decode_lane bpc (set_lane bpc cand c i l) c i = l AND 3"
proof -
  have s: "i mod 4 * 2 \<le> 6" by arith
  show ?thesis
    by (simp only: decode_lane_def set_lane_def Let_def and3_nat drop2_nat
        nth_list_update_eq assms field_written [OF s])
qed

lemma decode_set_lane_other:
  assumes "i < 4 * bpc" "i' < 4 * bpc" "c \<noteq> c' \<or> i \<noteq> i'"
  shows "decode_lane bpc (set_lane bpc cand c i l) c' i' = decode_lane bpc cand c' i'"
proof (cases "c * bpc + i div 4 = c' * bpc + i' div 4")
  case False
  then show ?thesis
    by (simp only: decode_lane_def set_lane_def Let_def and3_nat drop2_nat nth_list_update_neq
        not_False_eq_True)
next
  case True
  have lt: "i div 4 < bpc" "i' div 4 < bpc"
    using assms by auto
  have "c = c'"
  proof (rule ccontr)
    assume "c \<noteq> c'"
    then consider "c < c'" | "c' < c" by linarith
    then show False
    proof cases
      case 1
      then have "Suc c * bpc \<le> c' * bpc" by (intro mult_le_mono1) simp
      with True lt show False by simp
    next
      case 2
      then have "Suc c' * bpc \<le> c * bpc" by (intro mult_le_mono1) simp
      with True lt show False by simp
    qed
  qed
  with True assms have d: "i div 4 = i' div 4" "i \<noteq> i'" by auto
  then have m: "i mod 4 \<noteq> i' mod 4"
    by (metis div_mult_mod_eq)
  have s: "i mod 4 * 2 \<le> 6" "i' mod 4 * 2 \<le> 6"
    "i mod 4 * 2 + 2 \<le> i' mod 4 * 2 \<or> i' mod 4 * 2 + 2 \<le> i mod 4 * 2"
    using m by arith+
  show ?thesis
  proof (cases "c * bpc + i div 4 < length cand")
    case inr: True
    have inr': "c' * bpc + i' div 4 < length cand"
      using inr \<open>c = c'\<close> d(1) by simp
    show ?thesis
      unfolding \<open>c = c'\<close> d(1)
      by (simp only: decode_lane_def set_lane_def Let_def and3_nat drop2_nat
          nth_list_update_eq inr' d(1) field_kept [OF s])
  next
    case False
    then have "cand[c * bpc + i div 4 := v] = cand" for v
      by (simp add: list_update_beyond)
    then show ?thesis
      by (simp only: decode_lane_def set_lane_def Let_def drop2_nat)
  qed
qed

section \<open>Invariants of candidate generation\<close>

lemma running_load_cong:
  assumes "\<And>j. j < k \<Longrightarrow> decode_lane bpc cand c j = decode_lane bpc cand' c j"
  shows "running_load P weights bpc cand c k = running_load P weights bpc cand' c k"
  unfolding running_load_def
  by (rule arg_cong [where f = sum_list], rule map_cong) (simp_all add: assms)

lemma running_load_Suc:
  "running_load P weights bpc cand c (Suc k) = running_load P weights bpc cand c k
     + (if decode_lane bpc cand c k = 1 then int_of_float P (weights ! k) else 0)"
  by (simp add: running_load_def)

lemma lanes_fit_cong:
  assumes "\<And>j. j < k \<Longrightarrow> decode_lane bpc cand c j = decode_lane bpc cand' c j"
  shows "lanes_fit P weights bpc cand c k = lanes_fit P weights bpc cand' c k"
proof -
  have "running_load P weights bpc cand c i = running_load P weights bpc cand' c i" if "i < k" for i
    using that assms by (intro running_load_cong) simp
  then show ?thesis
    unfolding lanes_fit_def using assms by auto
qed

lemma lanes_fit_Suc:
  "lanes_fit P weights bpc cand c (Suc k) \<longleftrightarrow>
     lanes_fit P weights bpc cand c k \<and>
     (decode_lane bpc cand c k = 0 \<or> decode_lane bpc cand c k = 1) \<and>
     (decode_lane bpc cand c k = 1 \<longrightarrow>
        \<not> MAX_UNITS_PER_GROUP P <s running_load P weights bpc cand c k + int_of_float P (weights ! k)) \<and>
     ((\<forall>g. fst (uniform_int_distribution P g) \<noteq> 0) \<and>
      \<not> MAX_UNITS_PER_GROUP P <s running_load P weights bpc cand c k + int_of_float P (weights ! k)
        \<longrightarrow> decode_lane bpc cand c k = 1)"
  unfolding lanes_fit_def by (auto simp: less_Suc_eq)

lemma byte_in_range:
  assumes "i < 4 * bpc" "Suc c * bpc \<le> n"
  shows "c * bpc + i div 4 < n"
proof -
  have "i div 4 < bpc" using assms(1) by auto
  then have "c * bpc + i div 4 < Suc c * bpc" by simp
  with assms(2) show ?thesis by linarith
qed

text \<open>One step of the inner loop, seen through the decoder.\<close>

lemma assign_lane_step:
  assumes "k < 4 * bpc" "Suc c * bpc \<le> length cd"
    and "assign_lane P weights bpc c k (r, a, cd) = (r', a', cd')"
  shows "length cd' = length cd"
    and "\<And>c' i'. i' < 4 * bpc \<Longrightarrow> c' \<noteq> c \<or> i' \<noteq> k \<Longrightarrow>
           decode_lane bpc cd' c' i' = decode_lane bpc cd c' i'"
    and "decode_lane bpc cd' c k = 0 \<or> decode_lane bpc cd' c k = 1"
    and "decode_lane bpc cd' c k = 1 \<Longrightarrow> \<not> MAX_UNITS_PER_GROUP P <s a + int_of_float P (weights ! k)"
    and "a' = a + (if decode_lane bpc cd' c k = 1 then int_of_float P (weights ! k) else 0)"
    and "fst (uniform_int_distribution P r) \<noteq> 0 \<Longrightarrow>
           \<not> MAX_UNITS_PER_GROUP P <s a + int_of_float P (weights ! k) \<Longrightarrow> decode_lane bpc cd' c k = 1"
proof -
  obtain b r0 where draw: "uniform_int_distribution P r = (b, r0)"
    by (cases "uniform_int_distribution P r")
  define l :: lane where "l = (if b \<noteq> 0 then 1 else 0)"
  define l' :: lane where
    "l' = (if l = 1 \<and> MAX_UNITS_PER_GROUP P <s a + int_of_float P (weights ! k) then 0 else l)"
  have cd': "cd' = set_lane bpc cd c k l'"
    and a': "a' = (if l' = 1 then a + int_of_float P (weights ! k) else a)"
    using assms(3) by (auto simp: assign_lane_def draw Let_def l_def l'_def)
  have l01: "l' = 0 \<or> l' = 1"
    by (simp add: l'_def l_def)
  then have and3: "l' AND 3 = l'"
    by auto
  have inr: "c * bpc + k div 4 < length cd"
    using assms(1,2) by (rule byte_in_range)
  have dec: "decode_lane bpc cd' c k = l'"
    using decode_set_lane_same [OF inr, of l'] by (simp add: cd' and3)
  show "length cd' = length cd"
    by (simp add: cd')
  show "decode_lane bpc cd' c' i' = decode_lane bpc cd c' i'"
    if "i' < 4 * bpc" "c' \<noteq> c \<or> i' \<noteq> k" for c' i'
    unfolding cd' using assms(1) that by (intro decode_set_lane_other) auto
  show "decode_lane bpc cd' c k = 0 \<or> decode_lane bpc cd' c k = 1"
    using l01 by (simp add: dec)
  show "\<not> MAX_UNITS_PER_GROUP P <s a + int_of_float P (weights ! k)" if "decode_lane bpc cd' c k = 1"
    using that by (simp add: dec l'_def split: if_splits)
  show "a' = a + (if decode_lane bpc cd' c k = 1 then int_of_float P (weights ! k) else 0)"
    by (simp add: dec a')
  show "decode_lane bpc cd' c k = 1"
    if "fst (uniform_int_distribution P r) \<noteq> 0"
      "\<not> MAX_UNITS_PER_GROUP P <s a + int_of_float P (weights ! k)"
    using that by (simp add: dec l'_def l_def draw)
qed

text \<open>The inner loop after \<open>k\<close> items.\<close>

lemma inner_loop_invariant:
  assumes "k \<le> 4 * bpc" "Suc c * bpc \<le> length cand0"
    and "fold (assign_lane P weights bpc c) [0..<k] (g, 0, cand0) = (r, a, cd)"
  shows "length cd = length cand0
    \<and> (\<forall>c' i'. i' < 4 * bpc \<longrightarrow> c' \<noteq> c \<or> k \<le> i' \<longrightarrow>
          decode_lane bpc cd c' i' = decode_lane bpc cand0 c' i')
    \<and> a = running_load P weights bpc cd c k
    \<and> lanes_fit P weights bpc cd c k"
  using assms
proof (induction k arbitrary: r a cd)
  case 0
  then show ?case
    by (simp add: running_load_def lanes_fit_def)
next
  case (Suc k)
  obtain r0 a0 cd0 where prev: "fold (assign_lane P weights bpc c) [0..<k] (g, 0, cand0) = (r0, a0, cd0)"
    by (cases "fold (assign_lane P weights bpc c) [0..<k] (g, 0, cand0)")
  have k: "k < 4 * bpc" "k \<le> 4 * bpc"
    using Suc.prems(1) by simp_all
  note ih = Suc.IH [OF k(2) Suc.prems(2) prev]
  have len0: "Suc c * bpc \<le> length cd0"
    using ih Suc.prems(2) by simp
  have step: "assign_lane P weights bpc c k (r0, a0, cd0) = (r, a, cd)"
    using Suc.prems(3) by (simp add: prev)
  note st = assign_lane_step [OF k(1) len0 step]
  have same: "decode_lane bpc cd c j = decode_lane bpc cd0 c j" if "j < k" for j
    using that k(1) by (intro st(2)) auto
  have rl: "running_load P weights bpc cd c k = running_load P weights bpc cd0 c k"
    by (rule running_load_cong) (rule same)
  have fit: "lanes_fit P weights bpc cd c k = lanes_fit P weights bpc cd0 c k"
    by (rule lanes_fit_cong) (rule same)
  have a0: "a0 = running_load P weights bpc cd c k"
    using ih rl by simp
  show ?case
  proof (intro conjI allI impI)
    show "length cd = length cand0"
      using st(1) ih by simp
    show "decode_lane bpc cd c' i' = decode_lane bpc cand0 c' i'"
      if "i' < 4 * bpc" "c' \<noteq> c \<or> Suc k \<le> i'" for c' i'
    proof -
      have "decode_lane bpc cd c' i' = decode_lane bpc cd0 c' i'"
        using that by (intro st(2)) auto
      also have "\<dots> = decode_lane bpc cand0 c' i'"
        using ih that by auto
      finally show ?thesis .
    qed
    show "a = running_load P weights bpc cd c (Suc k)"
      using st(5) a0 by (simp add: running_load_Suc)
    show "lanes_fit P weights bpc cd c (Suc k)"
      unfolding lanes_fit_Suc fit
      using ih st(3) st(4) st(6) a0 by auto
  qed
qed

lemma gen_candidate_invariant:
  assumes "n_items \<le> 4 * bpc" "Suc c * bpc \<le> length cand0"
    and "gen_candidate P weights n_items bpc c (g, cand0) = (r, cd)"
  shows "length cd = length cand0"
    and "\<And>c' i'. i' < 4 * bpc \<Longrightarrow> c' \<noteq> c \<Longrightarrow> decode_lane bpc cd c' i' = decode_lane bpc cand0 c' i'"
    and "lanes_fit P weights bpc cd c n_items"
proof -
  obtain r0 a0 cd0
    where inner: "fold (assign_lane P weights bpc c) [0..<n_items] (g, 0, cand0) = (r0, a0, cd0)"
    by (cases "fold (assign_lane P weights bpc c) [0..<n_items] (g, 0, cand0)")
  have cd: "cd = cd0"
    using assms(3) by (simp add: gen_candidate_def inner)
  note inv = inner_loop_invariant [OF assms(1,2) inner]
  show "length cd = length cand0"
    using inv by (simp add: cd)
  show "decode_lane bpc cd c' i' = decode_lane bpc cand0 c' i'" if "i' < 4 * bpc" "c' \<noteq> c" for c' i'
    using inv that by (simp add: cd)
  show "lanes_fit P weights bpc cd c n_items"
    using inv by (simp add: cd)
qed

lemma outer_loop_invariant:
  assumes "n_items \<le> 4 * bpc" "m \<le> n" "length cand0 = n * bpc"
    and "fold (gen_candidate P weights n_items bpc) [0..<m] (g, cand0) = (r, cd)"
  shows "length cd = n * bpc \<and> (\<forall>c<m. lanes_fit P weights bpc cd c n_items)"
  using assms(2,4)
proof (induction m arbitrary: r cd)
  case 0
  then show ?case
    using assms(3) by simp
next
  case (Suc m)
  obtain r0 cd0 where prev: "fold (gen_candidate P weights n_items bpc) [0..<m] (g, cand0) = (r0, cd0)"
    by (cases "fold (gen_candidate P weights n_items bpc) [0..<m] (g, cand0)")
  have m: "m \<le> n" "Suc m \<le> n"
    using Suc.prems(1) by simp_all
  note ih = Suc.IH [OF m(1) prev]
  have len0: "Suc m * bpc \<le> length cd0"
    using ih m(2) by (simp only: mult_le_mono1)
  have step: "gen_candidate P weights n_items bpc m (r0, cd0) = (r, cd)"
    using Suc.prems(2) by (simp add: prev)
  note st = gen_candidate_invariant [OF assms(1) len0 step]
  show ?case
  proof (intro conjI allI impI)
    show "length cd = n * bpc"
      using st(1) ih by simp
    show "lanes_fit P weights bpc cd c n_items" if "c < Suc m" for c
    proof (cases "c = m")
      case True
      then show ?thesis using st(3) by simp
    next
      case False
      then have c: "c < m" using that by simp
      have "lanes_fit P weights bpc cd c n_items = lanes_fit P weights bpc cd0 c n_items"
        using False assms(1) by (intro lanes_fit_cong st(2)) auto
      then show ?thesis using ih c by simp
    qed
  qed
qed

lemma four_bytes_suffice: "(n_items::nat) \<le> 4 * ((n_items + 3) div 4)"
  by arith

lemma gen_candidates_invariant:
  assumes "gen_candidates P weights n_items num_candidates ((n_items + 3) div 4) g = (r, cd)"
  shows "length cd = num_candidates * ((n_items + 3) div 4)"
    and "\<And>c. c < num_candidates \<Longrightarrow> lanes_fit P weights ((n_items + 3) div 4) cd c n_items"
  using outer_loop_invariant [OF four_bytes_suffice order_refl _ assms [unfolded gen_candidates_def]]
  by simp_all

section \<open>Termination of the main loop\<close>

lemma form_block_sound:
  "x \<in> set (form_block entities pk i blockIdx) \<Longrightarrow>
     x \<in> set blockIdx \<or> (x < length entities \<and> pk x = 0)"
proof (induction entities pk i blockIdx rule: form_block.induct)
  case (1 entities pk i blockIdx)
  show ?case
  proof (cases "i < length entities \<and> length blockIdx < 15")
    case True
    with "1.prems" have
      "x \<in> set (form_block entities pk (Suc i)
          (if pk i = 0 \<and> 0 <s resourceUnits (entities ! i) then blockIdx @ [i] else blockIdx))"
      by (simp add: form_block.simps [of entities pk i blockIdx])
    from "1.IH" [OF True this] True show ?thesis
      by (auto split: if_splits)
  next
    case False
    with "1.prems" show ?thesis
      by (simp add: form_block.simps [of entities pk i blockIdx])
  qed
qed

lemma decode_trip_fold_subset:
  assumes "k \<le> length blockIdx"
  shows "set (fst (fold (\<lambda>i (trip, crew).
             if decode_lane bpc cand best i = 1
             then (trip @ [blockIdx ! i], crew + smax 0 (resourceUnits (entities ! (blockIdx ! i))))
             else (trip, crew)) [0..<k] ([], 0))) \<subseteq> set blockIdx"
  using assms
proof (induction k)
  case 0
  then show ?case by simp
next
  case (Suc k)
  then show ?case
    by (auto simp: case_prod_beta)
qed

lemma decode_trip_subset:
  "set (fst (decode_trip entities blockIdx bpc cand best)) \<subseteq> set blockIdx"
  unfolding decode_trip_def by (rule decode_trip_fold_subset) simp

lemma greedy_trip_subset:
  "set (fst (greedy_trip entities cap blockIdx i trip crew)) \<subseteq> set trip \<union> set blockIdx"
proof (induction entities cap blockIdx i trip crew rule: greedy_trip.induct)
  case (1 entities cap blockIdx i trip crew)
  show ?case
  proof (cases "i < length blockIdx \<and> crew <s cap")
    case True
    from "1.IH" [OF True] True show ?thesis
      by (subst greedy_trip.simps) auto
  next
    case False
    then show ?thesis
      by (subst greedy_trip.simps) auto
  qed
qed

lemma mark_picked_apply:
  "mark_picked trip pk i = (if i \<in> set trip then 1 else pk i)"
  unfolding mark_picked_def by (induction trip arbitrary: pk) auto

lemma mark_picked_decreases:
  assumes "trip \<noteq> []" "\<And>x. x \<in> set trip \<Longrightarrow> x < length entities \<and> pk x = 0"
  shows "unpicked entities (mark_picked trip pk) < unpicked entities pk"
proof -
  obtain x where x: "x \<in> set trip"
    using assms(1) by (cases trip) auto
  have "{i. i < length entities \<and> mark_picked trip pk i = 0} \<subset> {i. i < length entities \<and> pk i = 0}"
    using x assms(2) by (auto simp: mark_picked_apply)
  then show ?thesis
    unfolding unpicked_def by (intro psubset_card_mono) auto
qed

lemma decode_trip_elems:
  "decode_trip entities blockIdx bpc cand best = (trip, crew) \<Longrightarrow> set trip \<subseteq> set blockIdx"
  using decode_trip_subset [of entities blockIdx bpc cand best] by simp

lemma greedy_trip_elems:
  "greedy_trip entities cap blockIdx 0 [] 0 = (trip, crew) \<Longrightarrow> set trip \<subseteq> set blockIdx"
  using greedy_trip_subset [of entities cap blockIdx 0 "[]" 0] by simp

lemma candidate_batch_Some:
  assumes "candidate_batch P entities st = Some (blockIdx, bpc, vals, weights, g', cand)"
  shows "blockIdx = form_block entities (picked st) (cursor st) []"
    and "blockIdx \<noteq> []"
    and "bpc = (length blockIdx + 3) div 4"
    and "vals = block_values P entities blockIdx"
    and "weights = block_weights P entities blockIdx"
    and "gen_candidates P weights (length blockIdx) 64 bpc (rng st) = (g', cand)"
  using assms
  by (auto simp: candidate_batch_def Let_def split: if_splits prod.splits)

lemma trip_round_picks:
  assumes "trip_round P entities st = Some st'"
  shows "\<exists>trip. trip \<noteq> [] \<and> set trip \<subseteq> set (form_block entities (picked st) (cursor st) [])
           \<and> picked st' = mark_picked trip (picked st)"
  using assms
  by (auto simp: trip_round_def Let_def
      split: if_splits option.splits prod.splits
      dest!: decode_trip_elems greedy_trip_elems candidate_batch_Some(1))

lemma trip_round_decreases:
  assumes "trip_round P entities st = Some st'"
  shows "unpicked entities (picked st') < unpicked entities (picked st)"
proof -
  obtain trip where trip: "trip \<noteq> []"
    "set trip \<subseteq> set (form_block entities (picked st) (cursor st) [])"
    "picked st' = mark_picked trip (picked st)"
    using trip_round_picks [OF assms] by blast
  have "x < length entities \<and> picked st x = 0" if "x \<in> set trip" for x
    using form_block_sound [of x entities "picked st" "cursor st" "[]"] that trip(2) by auto
  then show ?thesis
    using mark_picked_decreases [of trip entities "picked st"] trip(1,3) by simp
qed

termination trip_loop
  by (relation "measure (\<lambda>(P, entities, st). unpicked entities (picked st))")
    (auto simp: trip_round_decreases)

declare trip_loop.simps [simp del]

section \<open>The result record\<close>

lemma convert_fold_units:
  assumes "fold (convert_trip P entities tripv) [0..<k] ([], 0, z) = (arr, tu, tc)"
  shows "tu = sum_list (map units arr)"
  using assms
proof (induction k arbitrary: arr tu tc)
  case 0
  then show ?case by simp
next
  case (Suc k)
  obtain arr0 tu0 tc0 where prev: "fold (convert_trip P entities tripv) [0..<k] ([], 0, z) = (arr0, tu0, tc0)"
    by (cases "fold (convert_trip P entities tripv) [0..<k] ([], 0, z)")
  have step: "convert_trip P entities tripv k (arr0, tu0, tc0) = (arr, tu, tc)"
    using Suc.prems by (simp add: prev)
  from Suc.IH [OF prev] step show ?case
    by (auto simp: convert_trip_def Let_def)
qed

lemma to_solution_shortfall:
  "shortfall (to_solution P entities t tripv) = smax 0 (t - total_units (to_solution P entities t tripv))"
  "total_units (to_solution P entities t tripv) = sum_list (map units (trips (to_solution P entities t tripv)))"
proof -
  obtain arr tu tc where f:
    "fold (convert_trip P entities tripv) [0..<length tripv] ([], 0, double_zero P) = (arr, tu, tc)"
    by (cases "fold (convert_trip P entities tripv) [0..<length tripv] ([], 0, double_zero P)")
  show "shortfall (to_solution P entities t tripv) = smax 0 (t - total_units (to_solution P entities t tripv))"
    by (simp add: to_solution_def f)
  show "total_units (to_solution P entities t tripv) = sum_list (map units (trips (to_solution P entities t tripv)))"
    using convert_fold_units [OF f] by (simp add: to_solution_def f)
qed

lemma solve_knapsack_Some:
  assumes "solve_knapsack P csv_path t = Inr (Some sol)"
  shows "\<exists>entities tripv. sol = to_solution P entities t tripv"
  using assms
  by (auto simp: solve_knapsack_def solve_knapsack_try_def Let_def
      split: option.splits sum.splits if_splits)

text \<open>Reading the 32-bit values as integers.\<close>

lemma sint_in_range:
  fixes k :: int
  assumes "- (2 ^ 31) \<le> k" "k < 2 ^ 31"
  shows "signed_take_bit 31 k = k"
  using assms by (simp add: signed_take_bit_int_eq_self)

lemma sint_smax: "sint (smax a b) = max (sint a) (sint b)"
  by (auto simp: smax_def word_sless_alt)

lemma sum_list_of_sint:
  "sum_list (xs :: cint list) = word_of_int (sum_list (map sint xs))"
  by (induction xs) simp_all

lemma sint_sum_list:
  "sint (sum_list (xs :: cint list)) = signed_take_bit 31 (sum_list (map sint xs))"
  by (subst sum_list_of_sint) (simp only: sint_sbintrunc', simp)

lemma sint_diff_in_range:
  fixes a b :: cint
  assumes "- (2 ^ 31) \<le> sint a - sint b" "sint a - sint b < 2 ^ 31"
  shows "sint (a - b) = sint a - sint b"
  using sint_in_range [OF assms] by (simp add: sint_word_ariths)

section \<open>Feasibility of a generated candidate\<close>

lemma lane_and_3:
  fixes l :: lane
  assumes "l < 4"
  shows "l AND 3 = l"
proof -
  have "l AND mask 2 = l"
    using assms by (intro less_mask_eq) simp
  then show ?thesis
    by (simp add: mask_eq_exp_minus_1)
qed

lemma bytes_per_cand_ceiling: "(n + 3) div 4 = nat \<lceil>real n / 4\<rceil>"
proof -
  have "\<lceil>real n / 4\<rceil> = - (- int n div 4)"
    using ceiling_divide_eq_div [of "int n" 4] by simp
  then show ?thesis
    by (simp add: nat_eq_iff)
qed

lemma unit_weight_nonneg: "0 \<le> sint (unit_weight entities blockIdx i)"
  by (simp add: unit_weight_def sint_smax)

lemma unit_load_Suc:
  "unit_load entities blockIdx bpc cand c (Suc k) = unit_load entities blockIdx bpc cand c k
     + (if decode_lane bpc cand c k = 1 then sint (unit_weight entities blockIdx k) else 0)"
  by (simp add: unit_load_def)

lemma sint_add_in_range:
  fixes a b :: cint
  assumes "- (2 ^ 31) \<le> sint a + sint b" "sint a + sint b < 2 ^ 31"
  shows "sint (a + b) = sint a + sint b"
  using sint_in_range [OF assms] by (simp add: sint_word_ariths)

lemma block_weight_cast:
  assumes "weights_exact P entities blockIdx" "i < length blockIdx"
  shows "int_of_float P (block_weights P entities blockIdx ! i) = unit_weight entities blockIdx i"
  using assms by (simp add: weights_exact_def block_weights_def unit_weight_def)

text \<open>Where the weights survive the conversions and are small, \<^verbatim>\<open>approxCrew\<close> is the
  load in units, and it stays between 0 and the cap.\<close>

lemma running_load_units:
  assumes fit: "lanes_fit P (block_weights P entities blockIdx) bpc cand c (length blockIdx)"
    and ex: "weights_exact P entities blockIdx"
    and sm: "weights_small P entities blockIdx"
    and k: "k \<le> length blockIdx"
  shows "sint (running_load P (block_weights P entities blockIdx) bpc cand c k)
           = unit_load entities blockIdx bpc cand c k
       \<and> 0 \<le> unit_load entities blockIdx bpc cand c k
       \<and> unit_load entities blockIdx bpc cand c k \<le> max 0 (sint (MAX_UNITS_PER_GROUP P))"
  using k
proof (induction k)
  case 0
  then show ?case
    by (simp add: running_load_def unit_load_def)
next
  case (Suc k)
  then have k: "k < length blockIdx" "k \<le> length blockIdx" by simp_all
  note ih = Suc.IH [OF k(2)]
  let ?rl = "running_load P (block_weights P entities blockIdx) bpc cand c k"
  let ?u = "unit_weight entities blockIdx k"
  have w: "int_of_float P (block_weights P entities blockIdx ! k) = ?u"
    using ex k(1) by (rule block_weight_cast)
  have u0: "0 \<le> sint ?u"
    by (rule unit_weight_nonneg)
  have small: "sint ?u + max 0 (sint (MAX_UNITS_PER_GROUP P)) < 2 ^ 31"
    using sm k(1) by (simp add: weights_small_def)
  have add: "sint (?rl + ?u) = sint ?rl + sint ?u"
    using ih u0 small by (intro sint_add_in_range) auto
  show ?case
  proof (cases "decode_lane bpc cand c k = 1")
    case True
    have "\<not> MAX_UNITS_PER_GROUP P <s ?rl + ?u"
      using fit k(1) True unfolding lanes_fit_def by (auto simp: w)
    then have "sint ?rl + sint ?u \<le> sint (MAX_UNITS_PER_GROUP P)"
      by (simp add: word_sless_alt add)
    then show ?thesis
      using ih u0 True by (simp add: running_load_Suc unit_load_Suc w add)
  next
    case False
    then show ?thesis
      using ih by (simp add: running_load_Suc unit_load_Suc)
  qed
qed

lemma bias_in_units:
  assumes fit: "lanes_fit P (block_weights P entities blockIdx) bpc cand c (length blockIdx)"
    and ex: "weights_exact P entities blockIdx"
    and sm: "weights_small P entities blockIdx"
    and i: "i < length blockIdx"
    and over: "unit_load entities blockIdx bpc cand c i + sint (unit_weight entities blockIdx i)
                 > sint (MAX_UNITS_PER_GROUP P)"
  shows "decode_lane bpc cand c i = 0"
proof (rule ccontr)
  assume "decode_lane bpc cand c i \<noteq> 0"
  then have one: "decode_lane bpc cand c i = 1"
    using fit i unfolding lanes_fit_def by blast
  let ?rl = "running_load P (block_weights P entities blockIdx) bpc cand c i"
  let ?u = "unit_weight entities blockIdx i"
  note rl = running_load_units [OF fit ex sm, of i]
  have small: "sint ?u + max 0 (sint (MAX_UNITS_PER_GROUP P)) < 2 ^ 31"
    using sm i by (simp add: weights_small_def)
  have add: "sint (?rl + ?u) = sint ?rl + sint ?u"
    using rl i unit_weight_nonneg [of entities blockIdx i] small
    by (intro sint_add_in_range) auto
  have "\<not> MAX_UNITS_PER_GROUP P <s ?rl + ?u"
    using fit i one unfolding lanes_fit_def by (auto simp: block_weight_cast [OF ex i])
  then have "sint ?rl + sint ?u \<le> sint (MAX_UNITS_PER_GROUP P)"
    by (simp add: word_sless_alt add)
  then show False
    using over rl i by simp
qed

section \<open>The decoding loop\<close>

lemma decode_trip_fold:
  assumes "k \<le> length blockIdx"
  shows "fold (\<lambda>i (trip, crew).
             if decode_lane bpc cand best i = 1
             then (trip @ [blockIdx ! i], crew + smax 0 (resourceUnits (entities ! (blockIdx ! i))))
             else (trip, crew)) [0..<k] ([], 0)
         = (map (\<lambda>j. blockIdx ! j) (filter (\<lambda>j. decode_lane bpc cand best j = 1) [0..<k]),
            sum_list (map (\<lambda>j. unit_weight entities blockIdx j)
                        (filter (\<lambda>j. decode_lane bpc cand best j = 1) [0..<k])))"
  using assms by (induction k) (simp_all add: unit_weight_def)

lemma decode_trip_eq:
  "decode_trip entities blockIdx bpc cand best
     = (map (\<lambda>j. blockIdx ! j) (filter (\<lambda>j. decode_lane bpc cand best j = 1) [0..<length blockIdx]),
        sum_list (map (\<lambda>j. unit_weight entities blockIdx j)
                    (filter (\<lambda>j. decode_lane bpc cand best j = 1) [0..<length blockIdx])))"
  unfolding decode_trip_def by (rule decode_trip_fold) simp

section \<open>Single precision\<close>

lemma round_float32_small:
  assumes "0 \<le> k" "k < 2 ^ 24"
  shows "round_float32 k = k"
proof -
  have "excess_bits (nat k) = 0"
    using assms by (subst excess_bits.simps) (simp add: nat_less_iff)
  then show ?thesis
    using assms by (simp add: round_float32_def Let_def sgn_if)
qed

lemma truncate_of_int: "truncate (real_of_int k) = k"
  by (simp add: truncate_def)

lemma truncate_signed: "truncate (signed n) = sint n"
  using truncate_of_int [of "sint n"] by (simp only: of_int_sint)

lemma ieee_round_trip:
  assumes "0 \<le> sint n" "sint n < 2 ^ 24"
  shows "x86_int_of_float (ieee_float_of_int n) = n"
proof -
  have "round_float32 (sint n) = sint n"
    using assms by (rule round_float32_small)
  then show ?thesis
    using assms by (simp add: x86_int_of_float_def ieee_float_of_int_def truncate_signed)
qed

section \<open>What a round's batch satisfies\<close>

lemma batch_invariant:
  assumes "candidate_batch P entities st = Some (blockIdx, bpc, vals, weights, g', cand)"
  shows "length cand = 64 * bpc"
    and "length blockIdx \<le> 4 * bpc"
    and "weights = block_weights P entities blockIdx"
    and "\<And>c. c < 64 \<Longrightarrow> lanes_fit P (block_weights P entities blockIdx) bpc cand c (length blockIdx)"
proof -
  note b = candidate_batch_Some [OF assms]
  have gen: "gen_candidates P (block_weights P entities blockIdx) (length blockIdx) 64
               ((length blockIdx + 3) div 4) (rng st) = (g', cand)"
    using b(6) by (simp only: b(3) [symmetric] b(5) [symmetric])
  show "length cand = 64 * bpc"
    using gen_candidates_invariant(1) [OF gen] by (simp only: b(3))
  show "length blockIdx \<le> 4 * bpc"
    unfolding b(3) by (rule four_bytes_suffice)
  show "weights = block_weights P entities blockIdx"
    by (rule b(5))
  show "lanes_fit P (block_weights P entities blockIdx) bpc cand c (length blockIdx)" if "c < 64" for c
    using gen_candidates_invariant(2) [OF gen that] by (simp only: b(3))
qed

lemma running_load_le:
  assumes fit: "lanes_fit P weights bpc cand c n"
    and cap: "0 \<le> sint (MAX_UNITS_PER_GROUP P)"
    and k: "k \<le> n"
  shows "sint (running_load P weights bpc cand c k) \<le> sint (MAX_UNITS_PER_GROUP P)"
  using k
proof (induction k)
  case 0
  then show ?case
    using cap by (simp add: running_load_def)
next
  case (Suc k)
  then have k: "k < n" "k \<le> n" by simp_all
  show ?case
  proof (cases "decode_lane bpc cand c k = 1")
    case True
    then have "\<not> MAX_UNITS_PER_GROUP P <s running_load P weights bpc cand c k + int_of_float P (weights ! k)"
      using fit k(1) unfolding lanes_fit_def by blast
    then show ?thesis
      using True by (simp add: running_load_Suc word_sless_alt)
  next
    case False
    then show ?thesis
      using Suc.IH [OF k(2)] by (simp add: running_load_Suc)
  qed
qed

lemma best_candidate_fold_less:
  assumes "\<forall>c \<in> set cs. c < n" "fst acc < n"
  shows "fst (fold (\<lambda>c (best, bestScore).
                  let s = float_sub P (obj c) (pen c)
                  in if float_less P bestScore s then (c, s) else (best, bestScore)) cs acc) < n"
  using assms
  by (induction cs arbitrary: acc) (auto simp: Let_def case_prod_beta)

lemma best_candidate_less:
  assumes "0 < n"
  shows "best_candidate P obj pen n < n"
  unfolding best_candidate_def using assms by (intro best_candidate_fold_less) auto

lemma trip_round_metal:
  assumes batch: "candidate_batch P entities st = Some (blockIdx, bpc, vals, weights, g', cand)"
    and metal: "knapsack_metal_eval P
        (MetalEvalIn cand (length blockIdx) 64 vals weights [float_of_int P (MAX_UNITS_PER_GROUP P)] 1
           (float_one P) (float_one P)) = Some (obj, pen)"
    and round: "trip_round P entities st = Some st'"
  shows "trip_list st' = trip_list st @ [fst (decode_trip entities blockIdx bpc cand (best_candidate P obj pen 64))]"
  using round metal
  by (auto simp: trip_round_def batch Let_def split: if_splits prod.splits)

section \<open>The example runs\<close>

lemma gen_candidates_uniform:
  fixes P :: "(nat, 'f, 'd) Platform"
  assumes step: "\<And>c g cd. c < length cd \<Longrightarrow> cd ! c = 0 \<Longrightarrow>
      gen_candidate P w n 1 c (g, cd) = (g + d, cd[c := b])"
  shows "gen_candidates P w n m 1 g = (g + m * d, replicate m b)"
proof -
  have "k \<le> m \<Longrightarrow> fold (gen_candidate P w n 1) [0..<k] (g, replicate m 0)
          = (g + k * d, replicate k b @ replicate (m - k) 0)" for k
  proof (induction k)
    case 0
    then show ?case by simp
  next
    case (Suc k)
    then have k: "k < m" by simp
    then obtain j where j: "m - k = Suc j" "m - Suc k = j"
      by (cases "m - k") auto
    have "gen_candidate P w n 1 k (g + k * d, replicate k b @ replicate (m - k) 0)
            = (g + k * d + d, (replicate k b @ replicate (m - k) 0)[k := b])"
      using k by (intro step) (simp_all add: nth_append)
    also have "(replicate k b @ replicate (m - k) 0)[k := b] = replicate (Suc k) b @ replicate (m - Suc k) 0"
      by (simp add: j list_update_append replicate_append_same)
    finally show ?case
      using Suc by (simp add: algebra_simps)
  qed
  from this [of m] show ?thesis
    by (simp add: gen_candidates_def)
qed

lemma x86_int_of_float_numeral:
  "x86_int_of_float (numeral k) =
     (if (numeral k :: int) < 2 ^ 31 then numeral k else 0x80000000)"
  by (simp add: x86_int_of_float_def truncate_def)

lemma demo_step:
  assumes "c < length cd" "cd ! c = 0"
  shows "gen_candidate demo_platform [3, 4] (Suc (Suc 0)) 1 c (g, cd) = (g + 2, cd[c := 1])"
  using assms
  by (simp add: gen_candidate_def assign_lane_def set_lane_def demo_platform_def ieee_platform_def
      x86_int_of_float_numeral word_sless_alt Let_def)

lemma metal_step:
  assumes "c < length cd" "cd ! c = 0"
  shows "gen_candidate metal_platform [3, 4] (Suc (Suc 0)) 1 c (g, cd) = (g + 2, cd[c := 1])"
  using assms
  by (simp add: gen_candidate_def assign_lane_def set_lane_def metal_platform_def demo_platform_def
      ieee_platform_def x86_int_of_float_numeral word_sless_alt Let_def)

lemma huge_step:
  assumes "c < length cd" "cd ! c = 0"
  shows "gen_candidate huge_platform [2147483648] 1 1 c (g, cd) = (g + 1, cd[c := 1])"
  using assms
  by (simp add: gen_candidate_def assign_lane_def set_lane_def huge_platform_def ieee_platform_def
      x86_int_of_float_numeral word_sless_alt Let_def)

lemma rounded_step:
  assumes "c < length cd" "cd ! c = 0"
  shows "gen_candidate rounded_platform [16777216] 1 1 c (g, cd) = (g + 1, cd[c := 1])"
  using assms
  by (simp add: gen_candidate_def assign_lane_def set_lane_def rounded_platform_def ieee_platform_def
      x86_int_of_float_numeral word_sless_alt Let_def)

lemma excess_bits_small: "m < 2 ^ 24 \<Longrightarrow> excess_bits m = 0"
  by (subst excess_bits.simps) simp

lemma excess_bits_step: "\<not> m < 2 ^ 24 \<Longrightarrow> excess_bits m = Suc (excess_bits (m div 2))"
  by (subst excess_bits.simps) simp

lemma float_3_4:
  "ieee_float_of_int 1 = 1" "ieee_float_of_int 2 = 2" "ieee_float_of_int 3 = 3" "ieee_float_of_int 4 = 4"
  by (simp_all add: ieee_float_of_int_def round_float32_def excess_bits_small excess_bits_step Let_def)

lemma float_huge: "ieee_float_of_int 2147483647 = 2147483648"
  by (simp add: ieee_float_of_int_def round_float32_def excess_bits_small excess_bits_step Let_def)

lemma float_rounded: "ieee_float_of_int 16777217 = 16777216"
  by (simp add: ieee_float_of_int_def round_float32_def excess_bits_small excess_bits_step Let_def)

lemma smax_numeral [simp]:
  "smax 0 3 = 3" "smax 0 4 = 4" "smax 1 2 = 2" "smax 1 0 = 1" "smax 1 1 = 1"
  "smax 0 2147483647 = 2147483647" "smax 0 16777217 = 16777217" "smax 0 10 = 10"
  by (simp_all add: smax_def word_sless_alt)

lemma demo_block: "form_block demo_entities (\<lambda>i. 0) 0 [] = [0, Suc 0]"
  by (simp add: demo_entities_def form_block.simps word_sless_alt)

lemma demo_arrays:
  "block_values demo_platform demo_entities [0, Suc 0] = [2, 1]"
  "block_weights demo_platform demo_entities [0, Suc 0] = [3, 4]"
  "block_values metal_platform demo_entities [0, Suc 0] = [2, 1]"
  "block_weights metal_platform demo_entities [0, Suc 0] = [3, 4]"
  by (simp_all add: block_values_def block_weights_def demo_entities_def metal_platform_def
      demo_platform_def ieee_platform_def float_3_4)

lemma demo_batch:
  "candidate_batch demo_platform demo_entities (start_search 10)
     = Some ([0, 1], 1, [2, 1], [3, 4], 12473, replicate 64 1)"
  using gen_candidates_uniform [OF demo_step, where m = 64 and g = 12345]
  by (simp add: candidate_batch_def start_search_def demo_block demo_arrays Let_def)

lemma metal_batch:
  "candidate_batch metal_platform demo_entities (start_search 10)
     = Some ([0, 1], 1, [2, 1], [3, 4], 12473, replicate 64 1)"
  using gen_candidates_uniform [OF metal_step, where m = 64 and g = 12345]
  by (simp add: candidate_batch_def start_search_def demo_block demo_arrays Let_def)

lemma huge_batch:
  "candidate_batch huge_platform huge_entities (start_search 10)
     = Some ([0], 1, [1], [2147483648], 12409, replicate 64 1)"
  using gen_candidates_uniform [OF huge_step, where m = 64 and g = 12345]
  by (simp add: candidate_batch_def start_search_def huge_entities_def form_block.simps word_sless_alt
      block_values_def block_weights_def huge_platform_def ieee_platform_def float_3_4 float_huge Let_def)

lemma rounded_batch:
  "candidate_batch rounded_platform rounded_entities (start_search 10)
     = Some ([0], 1, [1], [16777216], 12409, replicate 64 1)"
  using gen_candidates_uniform [OF rounded_step, where m = 64 and g = 12345]
  by (simp add: candidate_batch_def start_search_def rounded_entities_def form_block.simps word_sless_alt
      block_values_def block_weights_def rounded_platform_def ieee_platform_def float_3_4 float_rounded
      Let_def)

lemma ieee_weights_exact:
  assumes "\<forall>i<length blockIdx. sint (unit_weight entities blockIdx i) < 2 ^ 24"
  shows "weights_exact (ieee_platform cap es) entities blockIdx"
  using assms by (simp add: weights_exact_def ieee_platform_def ieee_round_trip unit_weight_nonneg)

lemma demo_units:
  "unit_weight demo_entities [0, 1] 0 = 3" "unit_weight demo_entities [0, 1] (Suc 0) = 4"
  "unit_weight huge_entities [0] 0 = 2147483647" "unit_weight rounded_entities [0] 0 = 16777217"
  by (simp_all add: unit_weight_def demo_entities_def huge_entities_def rounded_entities_def)

lemma demo_exact: "weights_exact demo_platform demo_entities [0, 1]"
  unfolding demo_platform_def
  by (rule ieee_weights_exact) (simp add: less_Suc_eq demo_units [simplified])

lemma demo_small: "weights_small demo_platform demo_entities [0, 1]"
  by (simp add: weights_small_def less_Suc_eq demo_units [simplified] demo_platform_def ieee_platform_def)

lemma demo_round:
  "trip_round demo_platform demo_entities (start_search 10)
     = Some \<lparr>remaining = 3, picked = (\<lambda>i. 0)(0 := 1, 1 := 1), trip_list = [[0, 1]], cursor = 2, rng = 12473\<rparr>"
  by (simp add: trip_round_def demo_batch)
    (simp add: start_search_def demo_platform_def ieee_platform_def demo_entities_def greedy_trip.simps
      advance_cursor.simps mark_picked_def word_sless_alt Let_def)

lemma demo_run: "solve_knapsack demo_platform (Some ''team.csv'') 10 =
  Inr (Some \<lparr>trips = [\<lparr>group_id = 1, item_names = ''ann,bob'', distance = 6, cost = 3 / 2, units = 7\<rparr>],
       num_trips = 1, total_units = 7, shortfall = 3, total_cost = 3 / 2\<rparr>)"
proof -
  have start: "\<lparr>remaining = 10, picked = (\<lambda>i. 0), trip_list = [], cursor = 0,
                 rng = mt19937 demo_platform 12345\<rparr> = start_search 10"
    by (simp add: start_search_def demo_platform_def ieee_platform_def)
  have loop: "trip_loop demo_platform demo_entities (start_search 10)
      = \<lparr>remaining = 3, picked = (\<lambda>i. 0)(0 := 1, 1 := 1), trip_list = [[0, 1]], cursor = 2, rng = 12473\<rparr>"
  proof -
    have stop: "trip_loop demo_platform demo_entities
        \<lparr>remaining = 3, picked = (\<lambda>i. 0)(0 := 1, 1 := 1), trip_list = [[0, 1]], cursor = 2, rng = 12473\<rparr>
      = \<lparr>remaining = 3, picked = (\<lambda>i. 0)(0 := 1, 1 := 1), trip_list = [[0, 1]], cursor = 2, rng = 12473\<rparr>"
      by (subst trip_loop.simps) (simp add: demo_entities_def)
    have go: "0 <s remaining (start_search 10) \<and> cursor (start_search 10) < length demo_entities"
      by (simp add: start_search_def demo_entities_def word_sless_alt)
    show ?thesis
      by (subst trip_loop.simps) (simp only: go demo_round stop if_True option.case simp_thms)
  qed
  have load: "load_entities_from_csv demo_platform ''team.csv'' = Inr demo_entities"
    by (simp add: demo_platform_def ieee_platform_def)
  have ne: "demo_entities \<noteq> []"
    by (simp add: demo_entities_def)
  have heap: "\<not> heap_exhausted demo_platform"
    by (simp add: demo_platform_def ieee_platform_def)
  have sol: "to_solution demo_platform demo_entities 10 [[0, 1]]
      = \<lparr>trips = [\<lparr>group_id = 1, item_names = ''ann,bob'', distance = 6, cost = 3 / 2, units = 7\<rparr>],
         num_trips = 1, total_units = 7, shortfall = 3, total_cost = 3 / 2\<rparr>"
    by (simp add: to_solution_def convert_trip_def make_trip_def visit_def demo_platform_def
        ieee_platform_def demo_entities_def smax_def word_sless_alt Let_def)
  show ?thesis
    using sol by (simp add: solve_knapsack_def solve_knapsack_try_def load ne heap start loop Let_def)
qed

lemma metal_eval:
  "knapsack_metal_eval metal_platform inp = Some ((\<lambda>c. 1), (\<lambda>c. 0))"
  by (simp add: metal_platform_def)

lemma metal_best: "best_candidate metal_platform (\<lambda>c. 1) (\<lambda>c. 0) n = 0"
proof -
  have "fold (\<lambda>c (best, bestScore).
                  let s = float_sub metal_platform 1 0
                  in if float_less metal_platform bestScore s then (c, s) else (best, bestScore)) cs (0, 1)
          = (0 :: nat, 1 :: real)" for cs :: "nat list"
    by (induction cs) (simp_all add: metal_platform_def demo_platform_def ieee_platform_def)
  then show ?thesis
    by (simp add: best_candidate_def metal_platform_def demo_platform_def ieee_platform_def)
qed

lemma metal_round:
  "trip_round metal_platform demo_entities (start_search 10)
     = Some \<lparr>remaining = 7, picked = (\<lambda>i. 0)(0 := 1), trip_list = [[0]], cursor = 1, rng = 12473\<rparr>"
  by (simp add: trip_round_def metal_batch metal_eval metal_best decode_trip_eq decode_lane_def)
    (simp add: start_search_def demo_entities_def unit_weight_def advance_cursor.simps mark_picked_def)

section \<open>The select array of the structured path\<close>

lemma store_select_Fault: "fold (store_select best) [0..<k] Fault = Fault"
  by (induction k) (simp_all add: store_select_def)

lemma store_select_null: "fold (store_select best) [0..<k] (Returns None) = (if k = 0 then Returns None else Fault)"
  by (induction k) (simp_all add: store_select_def)

lemma store_select_array:
  "fold (store_select best) [0..<k] (Returns (Some xs)) =
     (if k \<le> length best \<and> k \<le> length xs
      then Returns (Some (map (\<lambda>b. if b then 1 else 0) (take k best) @ drop k xs))
      else Fault)"
proof (induction k)
  case 0
  then show ?case by simp
next
  case (Suc k)
  show ?case
  proof (cases "Suc k \<le> length best \<and> Suc k \<le> length xs")
    case True
    then have k: "k < length best" "k < length xs" by simp_all
    have "(map (\<lambda>b. if b then 1 else 0) (take k best) @ drop k xs)[k := (if best ! k then 1 else 0)]
          = map (\<lambda>b. if b then (1::int) else 0) (take (Suc k) best) @ drop (Suc k) xs"
      using k by (simp add: take_Suc_conv_app_nth list_update_append Cons_nth_drop_Suc [symmetric])
    then show ?thesis
      using Suc.IH k by (simp add: store_select_def)
  next
    case False
    then show ?thesis
      using Suc.IH by (auto simp: store_select_def)
  qed
qed

lemma selected_flags:
  assumes "length flags = nat m"
    and "fold (store_select flags) [0..<nat m] (Returns (calloc_ints H m)) = Returns sel"
  shows "(case sel of None \<Rightarrow> [] | Some xs \<Rightarrow> map (\<lambda>x. x \<noteq> 0) xs) = flags"
proof (cases "calloc_fails H \<or> m < 0")
  case True
  then show ?thesis
    using assms by (auto simp: calloc_ints_def store_select_null split: if_splits)
next
  case False
  then show ?thesis
    using assms by (auto simp: calloc_ints_def store_select_array comp_def)
qed

lemma extractor_fields:
  "length (best_select (SolutionExtractor evaluator cfg soa winner)) = nat (count soa)"
  "BeamResult.total (SolutionExtractor evaluator cfg soa winner)
     = BeamResult.objective (SolutionExtractor evaluator cfg soa winner)
       - BeamResult.penalty (SolutionExtractor evaluator cfg soa winner)"
  "(BeamResult.objective (SolutionExtractor evaluator cfg soa winner),
    BeamResult.penalty (SolutionExtractor evaluator cfg soa winner))
     = evaluator cfg soa (best_select (SolutionExtractor evaluator cfg soa winner))"
  by (simp_all add: SolutionExtractor_def Let_def case_prod_beta)

lemma v2_success:
  assumes "solve_knapsack_v2_from_json H json_config options_json out_solution = Returns (0, Some (Some sol))"
  shows "\<exists>cfg_text cfg soa r sel.
           json_config = Some cfg_text
         \<and> LoadConfigFromJsonString H cfg_text = Some cfg
         \<and> BuildHostSoA H cfg = Some soa
         \<and> mode cfg = ''select''
         \<and> SolveBeamSelect H cfg soa (parse_options H options_json) = Some r
         \<and> \<not> malloc_fails H
         \<and> fold (store_select (best_select r)) [0..<nat (count soa)] (Returns (calloc_ints H (count soa))) = Returns sel
         \<and> sol = \<lparr>num_items = count soa, select = sel, objective = BeamResult.objective r,
                   penalty = BeamResult.penalty r, total = BeamResult.total r\<rparr>"
  using assms
  by (auto simp: solve_knapsack_v2_from_json_def alloc_solution_v2_def
      split: option.splits if_splits exec.splits)

text \<open>The return codes, stage by stage, in the order the source checks them.\<close>

lemma v2_return_codes:
  "solve_knapsack_v2_from_json H json_config options_json None = Returns (- 1, None)"
  "solve_knapsack_v2_from_json H None options_json (Some previous) = Returns (- 2, Some None)"
  "LoadConfigFromJsonString H cfg_text = None \<Longrightarrow>
     solve_knapsack_v2_from_json H (Some cfg_text) options_json (Some previous) = Returns (- 3, Some None)"
  "LoadConfigFromJsonString H cfg_text = Some cfg \<Longrightarrow> BuildHostSoA H cfg = None \<Longrightarrow>
     solve_knapsack_v2_from_json H (Some cfg_text) options_json (Some previous) = Returns (- 4, Some None)"
  "LoadConfigFromJsonString H cfg_text = Some cfg \<Longrightarrow> BuildHostSoA H cfg = Some soa \<Longrightarrow>
   mode cfg \<noteq> ''select'' \<Longrightarrow>
     solve_knapsack_v2_from_json H (Some cfg_text) options_json (Some previous) = Returns (- 5, Some None)"
  "LoadConfigFromJsonString H cfg_text = Some cfg \<Longrightarrow> BuildHostSoA H cfg = Some soa \<Longrightarrow>
   mode cfg = ''select'' \<Longrightarrow> SolveBeamSelect H cfg soa (parse_options H options_json) = None \<Longrightarrow>
     solve_knapsack_v2_from_json H (Some cfg_text) options_json (Some previous) = Returns (- 6, Some None)"
  "LoadConfigFromJsonString H cfg_text = Some cfg \<Longrightarrow> BuildHostSoA H cfg = Some soa \<Longrightarrow>
   mode cfg = ''select'' \<Longrightarrow> SolveBeamSelect H cfg soa (parse_options H options_json) = Some r \<Longrightarrow>
   malloc_fails H \<Longrightarrow>
     solve_knapsack_v2_from_json H (Some cfg_text) options_json (Some previous) = Returns (- 7, Some None)"
  "LoadConfigFromJsonString H cfg_text = Some cfg \<Longrightarrow> BuildHostSoA H cfg = Some soa \<Longrightarrow>
   mode cfg = ''select'' \<Longrightarrow> SolveBeamSelect H cfg soa (parse_options H options_json) = Some r \<Longrightarrow>
   \<not> malloc_fails H \<Longrightarrow> \<not> calloc_fails H \<Longrightarrow> 0 \<le> count soa \<Longrightarrow>
   nat (count soa) \<le> length (best_select r) \<Longrightarrow>
     solve_knapsack_v2_from_json H (Some cfg_text) options_json (Some previous)
       = Returns (0, Some (Some \<lparr>num_items = count soa,
                                  select = Some (map (\<lambda>b. if b then 1 else 0) (take (nat (count soa)) (best_select r))),
                                  objective = BeamResult.objective r,
                                  penalty = BeamResult.penalty r,
                                  total = BeamResult.total r\<rparr>))"
  "LoadConfigFromJsonString H cfg_text = Some cfg \<Longrightarrow> BuildHostSoA H cfg = Some soa \<Longrightarrow>
   mode cfg = ''select'' \<Longrightarrow> SolveBeamSelect H cfg soa (parse_options H options_json) = Some r \<Longrightarrow>
   \<not> malloc_fails H \<Longrightarrow> calloc_fails H \<Longrightarrow> 0 < count soa \<Longrightarrow>
     solve_knapsack_v2_from_json H (Some cfg_text) options_json (Some previous) = Fault"
  by (simp_all add: solve_knapsack_v2_from_json_def alloc_solution_v2_def calloc_ints_def
      store_select_array store_select_null)

lemma demo_assign: "solve_knapsack_v2_from_json demo_v2 (Some ''{mode: assign}'') None (Some None)
     = Returns (- 5, Some None)"
  by (simp add: solve_knapsack_v2_from_json_def demo_v2_def)

lemma demo_select: "solve_knapsack_v2_from_json demo_v2 (Some ''{mode: select}'') None (Some None)
     = Returns (0, Some (Some \<lparr>num_items = 2, select = Some [1, 0], objective = 2, penalty = 0, total = 2\<rparr>))"
  by code_simp

lemma sum_list_zero:
  fixes f :: "'a \<Rightarrow> real"
  assumes "\<And>x. x \<in> set xs \<Longrightarrow> f x = 0"
  shows "sum_list (map f xs) = 0"
  using assms by (induction xs) simp_all

lemma empty_evaluation:
  assumes "\<forall>g<length (capacities cfg). 0 \<le> capacities cfg ! g"
  shows "BatchEvaluator cfg soa [] = (0, 0)"
  using assms by (auto simp: BatchEvaluator_def intro!: sum_list_zero)

section \<open>The claims\<close>

text \<open>
  Claim C1 (return codes of the structured entry point). The codes are -1 for a null
  output pointer, -2 for a null config text, -3, -4, -5 and -6 for the failing stage,
  -7 for an allocation failure and 0 on success. The code follows this order for
  every failure it checks, and a failing \<^verbatim>\<open>malloc\<close> of the solution record
  gives -7; but \<^verbatim>\<open>alloc_solution_v2\<close> does not check the \<^verbatim>\<open>calloc\<close> of
  the select array, and with at least one item the loop of line 90 then stores through
  the null pointer: that allocation failure yields a fault, not -7.
\<close>

theorem calloc_failure_faults:
  "solve_knapsack_v2_from_json (demo_v2\<lparr>malloc_fails := True\<rparr>) (Some ''{mode: select}'') None (Some None)
     = Returns (- 7, Some None)
   \<and> solve_knapsack_v2_from_json (demo_v2\<lparr>calloc_fails := True\<rparr>) (Some ''{mode: select}'') None (Some None)
     = Fault"
  by (simp add: solve_knapsack_v2_from_json_def demo_v2_def SolveBeamSelect_spec_def demo_search_def
      alloc_solution_v2_def calloc_ints_def store_select_null)

text \<open>
  Claim C2 (reported totals). Spec-modelled: with the engine as the spec describes
  it (\<open>SolveBeamSelect_spec\<close>), every solution returned with code 0 has
  total = objective - penalty, and its objective and penalty are the evaluator's
  values on the very flags the solution reports: the wrapper copies the three
  fields and the flags unchanged.
\<close>

theorem reported_totals_consistent:
  assumes "SolveBeamSelect H = SolveBeamSelect_spec evaluator search"
    and "solve_knapsack_v2_from_json H json_config options_json out_solution = Returns (0, Some (Some sol))"
  shows "total sol = objective sol - penalty sol
       \<and> (\<exists>cfg_text cfg soa.
             json_config = Some cfg_text
           \<and> LoadConfigFromJsonString H cfg_text = Some cfg
           \<and> BuildHostSoA H cfg = Some soa
           \<and> (objective sol, penalty sol) = evaluator cfg soa (selected sol))"
proof -
  obtain cfg_text cfg soa r sel where s:
    "json_config = Some cfg_text"
    "LoadConfigFromJsonString H cfg_text = Some cfg"
    "BuildHostSoA H cfg = Some soa"
    "SolveBeamSelect H cfg soa (parse_options H options_json) = Some r"
    "fold (store_select (best_select r)) [0..<nat (count soa)] (Returns (calloc_ints H (count soa))) = Returns sel"
    "sol = \<lparr>num_items = count soa, select = sel, objective = BeamResult.objective r,
             penalty = BeamResult.penalty r, total = BeamResult.total r\<rparr>"
    using v2_success [OF assms(2)] by blast
  obtain winner where r: "r = SolutionExtractor evaluator cfg soa winner"
    using s(4) by (auto simp: assms(1) SolveBeamSelect_spec_def)
  have sel: "selected sol = best_select r"
    using selected_flags [OF _ s(5)] by (simp add: selected_def s(6) r extractor_fields(1))
  have "total sol = objective sol - penalty sol"
    by (simp add: s(6) r extractor_fields(2))
  moreover have "(objective sol, penalty sol) = evaluator cfg soa (selected sol)"
    unfolding sel by (simp add: s(6) r extractor_fields(3))
  ultimately show ?thesis
    using s(1,2,3) by blast
qed

theorem reported_totals_consistent_witness:
  "SolveBeamSelect demo_v2 = SolveBeamSelect_spec demo_evaluator demo_search
   \<and> solve_knapsack_v2_from_json demo_v2 (Some ''{mode: select}'') None (Some None)
       = Returns (0, Some (Some \<lparr>num_items = 2, select = Some [1, 0], objective = 2, penalty = 0, total = 2\<rparr>))
   \<and> (2 :: real) = 2 - 0
   \<and> selected \<lparr>num_items = 2, select = Some [1, 0], objective = 2, penalty = 0, total = 2\<rparr> = [True, False]"
proof -
  have spec: "SolveBeamSelect demo_v2 = SolveBeamSelect_spec demo_evaluator demo_search"
    by (simp add: demo_v2_def)
  show ?thesis
    using reported_totals_consistent [OF spec demo_select] spec demo_select
    by (simp add: selected_def)
qed

text \<open>
  Claim C3 (the legacy entry point never lets a failure out). \<^verbatim>\<open>solve_knapsack\<close>
  returns null when the path is null, when the loaded list is empty and when an
  exception leaves its \<^verbatim>\<open>try\<close> block; and for every input it returns (the main
  loop terminates, \<open>trip_loop\<close>) with a value, never with an exception.
\<close>

theorem null_on_bad_input:
  "(csv_path = None
      \<or> (\<exists>path. csv_path = Some path \<and> load_entities_from_csv P path = Inr [])
      \<or> (\<exists>e. solve_knapsack_try P csv_path target_team_size = Inl e)
    \<longrightarrow> solve_knapsack P csv_path target_team_size = Inr None)
   \<and> (\<exists>r. solve_knapsack P csv_path target_team_size = Inr r)"
  by (auto simp: solve_knapsack_def solve_knapsack_try_def split: sum.splits option.splits)

theorem null_on_bad_input_witness:
  "solve_knapsack demo_platform None 10 = Inr None
   \<and> load_entities_from_csv demo_platform ''empty.csv'' = Inr []
   \<and> solve_knapsack demo_platform (Some ''empty.csv'') 10 = Inr None
   \<and> solve_knapsack_try demo_platform (Some ''missing.csv'') 10 = Inl (runtime_error ''cannot open'')
   \<and> solve_knapsack demo_platform (Some ''missing.csv'') 10 = Inr None"
proof -
  have e: "load_entities_from_csv demo_platform ''empty.csv'' = Inr []"
    by (simp add: demo_platform_def ieee_platform_def)
  have m: "solve_knapsack_try demo_platform (Some ''missing.csv'') 10 = Inl (runtime_error ''cannot open'')"
    by (simp add: solve_knapsack_try_def demo_platform_def ieee_platform_def)
  have "solve_knapsack demo_platform None 10 = Inr None"
    using null_on_bad_input [of None demo_platform 10] by simp
  moreover have "solve_knapsack demo_platform (Some ''empty.csv'') 10 = Inr None"
    using null_on_bad_input [of "Some ''empty.csv''" demo_platform 10] e by simp
  moreover have "solve_knapsack demo_platform (Some ''missing.csv'') 10 = Inr None"
    using null_on_bad_input [of "Some ''missing.csv''" demo_platform 10] m by simp
  ultimately show ?thesis
    using e m by simp
qed

text \<open>
  Claim C5 (feasibility bias), as amended. In the batch of a round, for every
  candidate and item: when \<^verbatim>\<open>approxCrew + (int)weights[i]\<close>, computed as line 77
  computes it (the weight a \<^verbatim>\<open>float\<close> cast back to \<^verbatim>\<open>int\<close>, the sum in 32
  bits), is over the cap, the item's lane is 0. Where every weight of the block
  survives the two conversions and is small enough for the sum not to wrap, this is
  the statement in units: an item whose units would push the units already assigned to
  the candidate over the cap has lane 0.
\<close>

theorem bias_forces_unassigned:
  assumes "candidate_batch P entities st = Some (blockIdx, bytes_per_cand, vals, weights, g', cand)"
    and "c < 64" and "i < length blockIdx"
  shows "(MAX_UNITS_PER_GROUP P <s running_load P weights bytes_per_cand cand c i + int_of_float P (weights ! i)
            \<longrightarrow> decode_lane bytes_per_cand cand c i = 0)
       \<and> (weights_exact P entities blockIdx \<and> weights_small P entities blockIdx
            \<and> sint (MAX_UNITS_PER_GROUP P)
                 < unit_load entities blockIdx bytes_per_cand cand c i + sint (unit_weight entities blockIdx i)
            \<longrightarrow> decode_lane bytes_per_cand cand c i = 0)"
proof -
  note inv = batch_invariant [OF assms(1)]
  note fit = inv(4) [OF assms(2)]
  have "decode_lane bytes_per_cand cand c i = 0"
    if "MAX_UNITS_PER_GROUP P <s running_load P weights bytes_per_cand cand c i + int_of_float P (weights ! i)"
    using fit assms(3) that unfolding lanes_fit_def inv(3) by blast
  moreover have "decode_lane bytes_per_cand cand c i = 0"
    if "weights_exact P entities blockIdx" "weights_small P entities blockIdx"
      "sint (MAX_UNITS_PER_GROUP P)
         < unit_load entities blockIdx bytes_per_cand cand c i + sint (unit_weight entities blockIdx i)"
    using fit that(1,2) assms(3) that(3) by (rule bias_in_units)
  ultimately show ?thesis
    by blast
qed

theorem bias_forces_unassigned_witness:
  "candidate_batch demo_platform demo_entities (start_search 10)
     = Some ([0, 1], 1, [2, 1], [3, 4], 12473, replicate 64 1)
   \<and> MAX_UNITS_PER_GROUP demo_platform = 5
   \<and> running_load demo_platform [3, 4] 1 (replicate 64 1) 0 1 + int_of_float demo_platform ([3, 4] ! 1) = 7
   \<and> weights_exact demo_platform demo_entities [0, 1]
   \<and> weights_small demo_platform demo_entities [0, 1]
   \<and> unit_load demo_entities [0, 1] 1 (replicate 64 1) 0 1 = 3
   \<and> sint (unit_weight demo_entities [0, 1] 1) = 4
   \<and> decode_lane 1 (replicate 64 1) 0 1 = 0"
proof -
  have c: "(0::nat) < 64" "(1::nat) < length [0, 1 :: nat]"
    by simp_all
  have cap: "MAX_UNITS_PER_GROUP demo_platform = 5"
    by (simp add: demo_platform_def ieee_platform_def)
  have rl: "running_load demo_platform [3, 4] 1 (replicate 64 1) 0 1 + int_of_float demo_platform ([3, 4] ! 1) = 7"
    by (simp add: running_load_def decode_lane_def demo_platform_def ieee_platform_def
        x86_int_of_float_numeral)
  have ul: "unit_load demo_entities [0, 1] 1 (replicate 64 1) 0 1 = 3"
    using demo_units(1) by (simp add: unit_load_def decode_lane_def)
  have uw: "sint (unit_weight demo_entities [0, 1] 1) = 4"
    using demo_units(2) by simp
  have over: "MAX_UNITS_PER_GROUP demo_platform
      <s running_load demo_platform [3, 4] 1 (replicate 64 1) 0 1 + int_of_float demo_platform ([3, 4] ! 1)"
    unfolding rl cap by (simp add: word_sless_alt)
  from bias_forces_unassigned [OF demo_batch c] over
  have "decode_lane 1 (replicate 64 1) 0 1 = 0"
    by blast
  then show ?thesis
    using demo_batch cap rl demo_exact demo_small ul uw by blast
qed

text \<open>
  The claim as stated fails. An entity of 2147483647 units is stored as the weight
  \<open>2 ^ 31\<close>, which the cast of line 77 turns into \<^verbatim>\<open>INT_MIN\<close>: under a cap of 5
  the test does not fire and every candidate keeps lane 1 for it. An entity of
  16777217 units is stored as the weight 16777216: under a cap of 16777216 the test
  does not fire either, and the entity's units are over the cap.
\<close>

theorem bias_forces_unassigned_counterexample:
  "candidate_batch huge_platform huge_entities (start_search 10)
     = Some ([0], 1, [1], [2147483648], 12409, replicate 64 1)
   \<and> sint (MAX_UNITS_PER_GROUP huge_platform) = 5
   \<and> sint (resourceUnits (huge_entities ! 0)) = 2147483647
   \<and> unit_load huge_entities [0] 1 (replicate 64 1) 0 0 = 0
   \<and> sint (unit_weight huge_entities [0] 0) = 2147483647
   \<and> sint (int_of_float huge_platform ([2147483648] ! 0)) = - 2147483648
   \<and> decode_lane 1 (replicate 64 1) 0 0 = 1
   \<and> candidate_batch rounded_platform rounded_entities (start_search 10)
     = Some ([0], 1, [1], [16777216], 12409, replicate 64 1)
   \<and> sint (MAX_UNITS_PER_GROUP rounded_platform) = 16777216
   \<and> sint (resourceUnits (rounded_entities ! 0)) = 16777217
   \<and> unit_load rounded_entities [0] 1 (replicate 64 1) 0 0 = 0
   \<and> sint (unit_weight rounded_entities [0] 0) = 16777217"
  using huge_batch rounded_batch demo_units(3,4)
  by (simp add: huge_platform_def rounded_platform_def ieee_platform_def huge_entities_def
      rounded_entities_def unit_load_def decode_lane_def x86_int_of_float_numeral)

text \<open>
  Claim C6 (empty catalog), as amended. The legacy entry point returns null for an
  empty entity list: a well-defined result and no fault, but not an empty solution.
  Spec-modelled, for the structured entry point: with the engine as the spec describes
  it (\<open>SolveBeamSelect_spec\<close> over the evaluator \<open>BatchEvaluator\<close>) and capacities
  that are not negative, a call on a catalog of zero items never faults. In select
  mode, when the search ends with a winner and the solution record is allocated, it
  returns code 0 with a solution of zero items and no selected flag whose objective,
  penalty and total are 0; otherwise it returns a negative code and leaves null.
\<close>

theorem empty_catalog_result:
  "(load_entities_from_csv P path = Inr [] \<longrightarrow> solve_knapsack P (Some path) target_team_size = Inr None)
   \<and> (LoadConfigFromJsonString H cfg_text = Some cfg \<and> BuildHostSoA H cfg = Some soa \<and> count soa = 0
        \<and> SolveBeamSelect H = SolveBeamSelect_spec BatchEvaluator search
        \<and> (\<forall>g<length (capacities cfg). 0 \<le> capacities cfg ! g)
      \<longrightarrow> (mode cfg = ''select'' \<and> search cfg soa (parse_options H options_json) \<noteq> None
              \<and> \<not> malloc_fails H
            \<longrightarrow> (\<exists>sol. solve_knapsack_v2_from_json H (Some cfg_text) options_json (Some previous)
                          = Returns (0, Some (Some sol))
                    \<and> num_items sol = 0 \<and> selected sol = []
                    \<and> objective sol = 0 \<and> penalty sol = 0 \<and> total sol = 0))
        \<and> (\<not> (mode cfg = ''select'' \<and> search cfg soa (parse_options H options_json) \<noteq> None
                \<and> \<not> malloc_fails H)
            \<longrightarrow> (\<exists>code. code < 0
                    \<and> solve_knapsack_v2_from_json H (Some cfg_text) options_json (Some previous)
                          = Returns (code, Some None))))"
proof -
  have legacy: "solve_knapsack P (Some path) target_team_size = Inr None"
    if "load_entities_from_csv P path = Inr []"
    using that by (simp add: solve_knapsack_def solve_knapsack_try_def)
  have v2: "(mode cfg = ''select'' \<and> search cfg soa (parse_options H options_json) \<noteq> None
              \<and> \<not> malloc_fails H
            \<longrightarrow> (\<exists>sol. solve_knapsack_v2_from_json H (Some cfg_text) options_json (Some previous)
                          = Returns (0, Some (Some sol))
                    \<and> num_items sol = 0 \<and> selected sol = []
                    \<and> objective sol = 0 \<and> penalty sol = 0 \<and> total sol = 0))
        \<and> (\<not> (mode cfg = ''select'' \<and> search cfg soa (parse_options H options_json) \<noteq> None
                \<and> \<not> malloc_fails H)
            \<longrightarrow> (\<exists>code. code < 0
                    \<and> solve_knapsack_v2_from_json H (Some cfg_text) options_json (Some previous)
                          = Returns (code, Some None)))"
    if s: "LoadConfigFromJsonString H cfg_text = Some cfg" "BuildHostSoA H cfg = Some soa" "count soa = 0"
      "SolveBeamSelect H = SolveBeamSelect_spec BatchEvaluator search"
      "\<forall>g<length (capacities cfg). 0 \<le> capacities cfg ! g"
  proof -
    have ev: "SolutionExtractor BatchEvaluator cfg soa winner
        = \<lparr>best_select = [], objective = 0, penalty = 0, total = 0\<rparr>" for winner
      by (simp add: SolutionExtractor_def s(3) empty_evaluation [OF s(5)])
    show ?thesis
      by (cases "search cfg soa (parse_options H options_json)")
        (auto simp: solve_knapsack_v2_from_json_def s(1,2,3,4) SolveBeamSelect_spec_def ev
          alloc_solution_v2_def calloc_ints_def selected_def)
  qed
  show ?thesis
    using legacy v2 by blast
qed

theorem empty_catalog_result_witness:
  "load_entities_from_csv demo_platform ''empty.csv'' = Inr []
   \<and> solve_knapsack demo_platform (Some ''empty.csv'') 10 = Inr None
   \<and> LoadConfigFromJsonString demo_v2_spec ''{mode: select, items: []}''
       = Some \<lparr>mode = ''select'', items = [], capacities = [5], objective_weights = [1],
               penalty_coeff = 1, penalty_power = 1\<rparr>
   \<and> BuildHostSoA demo_v2_spec
        \<lparr>mode = ''select'', items = [], capacities = [5], objective_weights = [1],
          penalty_coeff = 1, penalty_power = 1\<rparr>
       = Some \<lparr>count = 0, soa_values = [], soa_weights = []\<rparr>
   \<and> SolveBeamSelect demo_v2_spec = SolveBeamSelect_spec BatchEvaluator demo_search
   \<and> \<not> malloc_fails demo_v2_spec
   \<and> solve_knapsack_v2_from_json demo_v2_spec (Some ''{mode: select, items: []}'') None (Some None)
       = Returns (0, Some (Some \<lparr>num_items = 0, select = Some [], objective = 0, penalty = 0, total = 0\<rparr>))
   \<and> selected \<lparr>num_items = 0, select = Some [], objective = 0, penalty = 0, total = 0\<rparr> = []"
proof -
  have e: "load_entities_from_csv demo_platform ''empty.csv'' = Inr []"
    by (simp add: demo_platform_def ieee_platform_def)
  have l: "LoadConfigFromJsonString demo_v2_spec ''{mode: select, items: []}''
       = Some \<lparr>mode = ''select'', items = [], capacities = [5], objective_weights = [1],
               penalty_coeff = 1, penalty_power = 1\<rparr>"
    by (simp add: demo_v2_spec_def demo_v2_def)
  have b: "BuildHostSoA demo_v2_spec
        \<lparr>mode = ''select'', items = [], capacities = [5], objective_weights = [1],
          penalty_coeff = 1, penalty_power = 1\<rparr>
       = Some \<lparr>count = 0, soa_values = [], soa_weights = []\<rparr>"
    by (simp add: demo_v2_spec_def demo_v2_def)
  have sp: "SolveBeamSelect demo_v2_spec = SolveBeamSelect_spec BatchEvaluator demo_search"
    by (simp add: demo_v2_spec_def)
  have m: "\<not> malloc_fails demo_v2_spec"
    by (simp add: demo_v2_spec_def demo_v2_def)
  have run: "solve_knapsack_v2_from_json demo_v2_spec (Some ''{mode: select, items: []}'') None (Some None)
       = Returns (0, Some (Some \<lparr>num_items = 0, select = Some [], objective = 0, penalty = 0, total = 0\<rparr>))"
    by (simp add: solve_knapsack_v2_from_json_def demo_v2_spec_def demo_v2_def SolveBeamSelect_spec_def
        demo_search_def SolutionExtractor_def BatchEvaluator_def parse_options_def
        alloc_solution_v2_def calloc_ints_def Let_def)
  note inst = empty_catalog_result [where P = demo_platform and path = "''empty.csv''"
      and target_team_size = 10 and H = demo_v2_spec and cfg_text = "''{mode: select, items: []}''"
      and cfg = "\<lparr>mode = ''select'', items = [], capacities = [5], objective_weights = [1],
                   penalty_coeff = 1, penalty_power = 1\<rparr>"
      and soa = "\<lparr>count = 0, soa_values = [], soa_weights = []\<rparr>"
      and search = demo_search and options_json = None and previous = None]
  have legacy: "solve_knapsack demo_platform (Some ''empty.csv'') 10 = Inr None"
    using inst e by blast
  have "\<exists>sol. solve_knapsack_v2_from_json demo_v2_spec (Some ''{mode: select, items: []}'') None (Some None)
            = Returns (0, Some (Some sol))
          \<and> num_items sol = 0 \<and> selected sol = []
          \<and> objective sol = 0 \<and> penalty sol = 0 \<and> total sol = 0"
    using inst l b sp m by (simp add: demo_search_def)
  then have "selected \<lparr>num_items = 0, select = Some [], objective = 0, penalty = 0, total = 0\<rparr> = []"
    unfolding run by simp
  then show ?thesis
    using e legacy l b sp m run by blast
qed

text \<open>
  The claim as stated fails: on the empty list the legacy entry point returns null,
  not an empty solution.
\<close>

theorem empty_catalog_counterexample:
  "load_entities_from_csv demo_platform ''empty.csv'' = Inr []
   \<and> solve_knapsack demo_platform (Some ''empty.csv'') 10 = Inr None"
  by (simp add: solve_knapsack_def solve_knapsack_try_def demo_platform_def ieee_platform_def)

text \<open>
  Claim C7 (two bits per item). The batch of a round over a block of \<open>n\<close> items has
  \<open>ceil(n / 4)\<close> bytes for each of its 64 candidates; every lane in it is 0 or 1;
  decoding reads back the lane that \<^verbatim>\<open>set_lane\<close> wrote, for each of the four lane
  values, while the other lanes of the batch stay as they were; the decoding loop of
  lines 116-124 yields exactly the block entries whose lane in the chosen candidate is
  1, in order, with the sum of their units; and when the accelerator has scored the
  batch, the trip that the round appends is the decoding of the best candidate, one of
  the 64.
\<close>

theorem two_bit_encoding:
  assumes "candidate_batch P entities st = Some (blockIdx, bytes_per_cand, vals, weights, g', cand)"
  shows "bytes_per_cand = nat \<lceil>real (length blockIdx) / 4\<rceil>
       \<and> length cand = 64 * bytes_per_cand
       \<and> (\<forall>c i. c < 64 \<and> i < length blockIdx \<longrightarrow>
             (decode_lane bytes_per_cand cand c i = 0 \<or> decode_lane bytes_per_cand cand c i = 1)
           \<and> (\<forall>l. l < 4 \<longrightarrow> decode_lane bytes_per_cand (set_lane bytes_per_cand cand c i l) c i = l)
           \<and> (\<forall>l c' i'. i' < length blockIdx \<and> (c' \<noteq> c \<or> i' \<noteq> i) \<longrightarrow>
                 decode_lane bytes_per_cand (set_lane bytes_per_cand cand c i l) c' i'
                   = decode_lane bytes_per_cand cand c' i'))
       \<and> (\<forall>best. decode_trip entities blockIdx bytes_per_cand cand best
             = (map (\<lambda>j. blockIdx ! j)
                  (filter (\<lambda>j. decode_lane bytes_per_cand cand best j = 1) [0..<length blockIdx]),
                sum_list (map (\<lambda>j. unit_weight entities blockIdx j)
                  (filter (\<lambda>j. decode_lane bytes_per_cand cand best j = 1) [0..<length blockIdx]))))
       \<and> (\<forall>obj pen st'.
             knapsack_metal_eval P
               (MetalEvalIn cand (length blockIdx) 64 vals weights [float_of_int P (MAX_UNITS_PER_GROUP P)] 1
                  (float_one P) (float_one P)) = Some (obj, pen)
             \<and> trip_round P entities st = Some st'
             \<longrightarrow> best_candidate P obj pen 64 < 64
               \<and> trip_list st' = trip_list st @
                   [map (\<lambda>j. blockIdx ! j)
                      (filter (\<lambda>j. decode_lane bytes_per_cand cand (best_candidate P obj pen 64) j = 1)
                         [0..<length blockIdx])])"
proof -
  note b = candidate_batch_Some [OF assms]
  note inv = batch_invariant [OF assms]
  have size: "bytes_per_cand = nat \<lceil>real (length blockIdx) / 4\<rceil>"
    unfolding b(3) by (rule bytes_per_cand_ceiling)
  have lanes: "(decode_lane bytes_per_cand cand c i = 0 \<or> decode_lane bytes_per_cand cand c i = 1)
      \<and> (\<forall>l. l < 4 \<longrightarrow> decode_lane bytes_per_cand (set_lane bytes_per_cand cand c i l) c i = l)
      \<and> (\<forall>l c' i'. i' < length blockIdx \<and> (c' \<noteq> c \<or> i' \<noteq> i) \<longrightarrow>
            decode_lane bytes_per_cand (set_lane bytes_per_cand cand c i l) c' i'
              = decode_lane bytes_per_cand cand c' i')"
    if c: "c < 64" and i: "i < length blockIdx" for c i
  proof -
    have "Suc c * bytes_per_cand \<le> 64 * bytes_per_cand"
      using c by (intro mult_le_mono1) simp
    then have inr: "c * bytes_per_cand + i div 4 < length cand"
      using i inv(1,2) by (intro byte_in_range) auto
    have fit: "decode_lane bytes_per_cand cand c i = 0 \<or> decode_lane bytes_per_cand cand c i = 1"
      using inv(4) [OF c] i unfolding lanes_fit_def by blast
    have rt: "decode_lane bytes_per_cand (set_lane bytes_per_cand cand c i l) c i = l" if "l < 4" for l
      using decode_set_lane_same [OF inr, of l] lane_and_3 [OF that] by simp
    have fr: "decode_lane bytes_per_cand (set_lane bytes_per_cand cand c i l) c' i'
                = decode_lane bytes_per_cand cand c' i'"
      if "i' < length blockIdx" "c' \<noteq> c \<or> i' \<noteq> i" for l c' i'
      using that i inv(2) by (intro decode_set_lane_other) auto
    show ?thesis
      using fit rt fr by blast
  qed
  have round: "best_candidate P obj pen 64 < 64
      \<and> trip_list st' = trip_list st @
          [map (\<lambda>j. blockIdx ! j)
             (filter (\<lambda>j. decode_lane bytes_per_cand cand (best_candidate P obj pen 64) j = 1)
                [0..<length blockIdx])]"
    if "knapsack_metal_eval P
          (MetalEvalIn cand (length blockIdx) 64 vals weights [float_of_int P (MAX_UNITS_PER_GROUP P)] 1
             (float_one P) (float_one P)) = Some (obj, pen)"
      "trip_round P entities st = Some st'" for obj pen st'
    using trip_round_metal [OF assms that] best_candidate_less [of 64 P obj pen]
    by (simp add: decode_trip_eq)
  show ?thesis
    using size inv(1) lanes round decode_trip_eq by blast
qed

theorem two_bit_encoding_witness:
  "candidate_batch metal_platform demo_entities (start_search 10)
     = Some ([0, 1], 1, [2, 1], [3, 4], 12473, replicate 64 1)
   \<and> (1 :: nat) = nat \<lceil>real (length [0, 1 :: nat]) / 4\<rceil>
   \<and> length (replicate 64 (1 :: byte)) = 64 * 1
   \<and> decode_lane 1 (replicate 64 1) 5 0 = 1
   \<and> decode_lane 1 (replicate 64 1) 5 1 = 0
   \<and> decode_lane 1 (set_lane 1 (replicate 64 1) 5 1 3) 5 1 = 3
   \<and> decode_lane 1 (set_lane 1 (replicate 64 1) 5 1 3) 5 0 = decode_lane 1 (replicate 64 1) 5 0
   \<and> decode_trip demo_entities [0, 1] 1 (replicate 64 1) 5 = ([0], 3)
   \<and> knapsack_metal_eval metal_platform
        (MetalEvalIn (replicate 64 1) (length [0, 1 :: nat]) 64 [2, 1] [3, 4]
           [float_of_int metal_platform (MAX_UNITS_PER_GROUP metal_platform)] 1
           (float_one metal_platform) (float_one metal_platform)) = Some ((\<lambda>c. 1), (\<lambda>c. 0))
   \<and> trip_round metal_platform demo_entities (start_search 10)
        = Some \<lparr>remaining = 7, picked = (\<lambda>i. 0)(0 := 1), trip_list = [[0]], cursor = 1, rng = 12473\<rparr>
   \<and> best_candidate metal_platform (\<lambda>c. 1) (\<lambda>c. 0) 64 < 64
   \<and> trip_list \<lparr>remaining = 7, picked = (\<lambda>i. 0)(0 := 1), trip_list = [[0]], cursor = 1, rng = 12473 :: nat\<rparr>
        = trip_list (start_search 10) @ [[0]]"
proof -
  note enc = two_bit_encoding [OF metal_batch]
  have sz: "(1 :: nat) = nat \<lceil>real (length [0, 1 :: nat]) / 4\<rceil> \<and> length (replicate 64 (1 :: byte)) = 64 * 1"
    using enc by blast
  have ci: "(5 :: nat) < 64 \<and> (1 :: nat) < length [0, 1 :: nat]"
    by simp
  from enc have "\<forall>c i. c < 64 \<and> i < length [0, 1 :: nat] \<longrightarrow>
      (\<forall>l. l < 4 \<longrightarrow> decode_lane 1 (set_lane 1 (replicate 64 1) c i l) c i = l)
      \<and> (\<forall>l c' i'. i' < length [0, 1 :: nat] \<and> (c' \<noteq> c \<or> i' \<noteq> i) \<longrightarrow>
            decode_lane 1 (set_lane 1 (replicate 64 1) c i l) c' i' = decode_lane 1 (replicate 64 1) c' i')"
    by blast
  from this [rule_format, OF ci]
  have rt: "\<forall>l. l < 4 \<longrightarrow> decode_lane 1 (set_lane 1 (replicate 64 1) 5 1 l) 5 1 = l"
    and fr: "\<forall>l c' i'. i' < length [0, 1 :: nat] \<and> (c' \<noteq> 5 \<or> i' \<noteq> 1) \<longrightarrow>
            decode_lane 1 (set_lane 1 (replicate 64 1) 5 1 l) c' i' = decode_lane 1 (replicate 64 1) c' i'"
    by blast+
  have rt3: "decode_lane 1 (set_lane 1 (replicate 64 1) 5 1 3) 5 1 = 3"
    using rt [rule_format, of 3] by simp
  have fr3: "decode_lane 1 (set_lane 1 (replicate 64 1) 5 1 3) 5 0 = decode_lane 1 (replicate 64 1) 5 0"
    using fr [rule_format, of 0 5 3] by simp
  have now: "decode_lane 1 (replicate 64 1) 5 0 = 1" "decode_lane 1 (replicate 64 1) 5 1 = 0"
    by (simp_all add: decode_lane_def)
  from enc have "\<forall>best. decode_trip demo_entities [0, 1] 1 (replicate 64 1) best
      = (map (\<lambda>j. [0, 1] ! j) (filter (\<lambda>j. decode_lane 1 (replicate 64 1) best j = 1) [0..<length [0, 1 :: nat]]),
         sum_list (map (\<lambda>j. unit_weight demo_entities [0, 1] j)
           (filter (\<lambda>j. decode_lane 1 (replicate 64 1) best j = 1) [0..<length [0, 1 :: nat]])))"
    by blast
  from this [rule_format, of 5]
  have dt: "decode_trip demo_entities [0, 1] 1 (replicate 64 1) 5 = ([0], 3)"
    using demo_units(1) by (simp add: decode_lane_def)
  have ev: "knapsack_metal_eval metal_platform
        (MetalEvalIn (replicate 64 1) (length [0, 1 :: nat]) 64 [2, 1] [3, 4]
           [float_of_int metal_platform (MAX_UNITS_PER_GROUP metal_platform)] 1
           (float_one metal_platform) (float_one metal_platform)) = Some ((\<lambda>c. 1), (\<lambda>c. 0))"
    by (rule metal_eval)
  from enc ev metal_round
  have rd: "best_candidate metal_platform (\<lambda>c. 1) (\<lambda>c. 0) 64 < 64
      \<and> trip_list \<lparr>remaining = 7, picked = (\<lambda>i. 0)(0 := 1), trip_list = [[0]], cursor = 1, rng = 12473 :: nat\<rparr>
        = trip_list (start_search 10) @
            [map (\<lambda>j. [0, 1] ! j)
               (filter (\<lambda>j. decode_lane 1 (replicate 64 1) (best_candidate metal_platform (\<lambda>c. 1) (\<lambda>c. 0) 64) j = 1)
                  [0..<length [0, 1 :: nat]])]"
    by blast
  then have rd': "trip_list \<lparr>remaining = 7, picked = (\<lambda>i. 0)(0 := 1), trip_list = [[0]], cursor = 1, rng = 12473 :: nat\<rparr>
        = trip_list (start_search 10) @ [[0]]"
    by (simp add: start_search_def)
  show ?thesis
    using metal_batch sz now rt3 fr3 dt ev metal_round rd rd' by blast
qed

text \<open>
  Claim C8 (shortfall). For every solution the legacy entry point returns, the
  shortfall is \<^verbatim>\<open>std::max(0, target_team_size - total_units)\<close> and
  \<^verbatim>\<open>total_units\<close> is the sum of the units of its trips, both in the 32-bit
  arithmetic of the code; and where the sum of the trips' units and its difference
  from the target fit 32 bits, the two equations hold of the integers that the
  fields denote.
\<close>

theorem shortfall_is_deficit:
  assumes "solve_knapsack P csv_path target_team_size = Inr (Some sol)"
  shows "shortfall sol = smax 0 (target_team_size - total_units sol)
       \<and> total_units sol = sum_list (map units (trips sol))
       \<and> (- (2 ^ 31) \<le> sum_list (map (\<lambda>t. sint (units t)) (trips sol))
            \<and> sum_list (map (\<lambda>t. sint (units t)) (trips sol)) < 2 ^ 31
            \<and> - (2 ^ 31) \<le> sint target_team_size - sum_list (map (\<lambda>t. sint (units t)) (trips sol))
            \<and> sint target_team_size - sum_list (map (\<lambda>t. sint (units t)) (trips sol)) < 2 ^ 31
          \<longrightarrow> sint (total_units sol) = sum_list (map (\<lambda>t. sint (units t)) (trips sol))
            \<and> sint (shortfall sol)
                = max 0 (sint target_team_size - sum_list (map (\<lambda>t. sint (units t)) (trips sol))))"
proof -
  have a: "shortfall sol = smax 0 (target_team_size - total_units sol)"
    and b: "total_units sol = sum_list (map units (trips sol))"
    using solve_knapsack_Some [OF assms] to_solution_shortfall by auto
  define T where "T = sum_list (map (\<lambda>t. sint (units t)) (trips sol))"
  have c: "sint (total_units sol) = T \<and> sint (shortfall sol) = max 0 (sint target_team_size - T)"
    if r: "- (2 ^ 31) \<le> T" "T < 2 ^ 31"
      "- (2 ^ 31) \<le> sint target_team_size - T" "sint target_team_size - T < 2 ^ 31"
  proof -
    have tu: "sint (total_units sol) = T"
      unfolding b sint_sum_list T_def using sint_in_range [OF r(1,2)]
      by (simp add: T_def comp_def)
    have "sint (target_team_size - total_units sol) = sint target_team_size - T"
      using sint_diff_in_range [of target_team_size "total_units sol"] r(3,4) by (simp add: tu)
    then show ?thesis
      by (simp add: tu a sint_smax)
  qed
  show ?thesis
    using a b c unfolding T_def by blast
qed

theorem shortfall_is_deficit_witness:
  "solve_knapsack demo_platform (Some ''team.csv'') 10 =
     Inr (Some \<lparr>trips = [\<lparr>group_id = 1, item_names = ''ann,bob'', distance = 6, cost = 3 / 2, units = 7\<rparr>],
          num_trips = 1, total_units = 7, shortfall = 3, total_cost = 3 / 2\<rparr>)
   \<and> (3 :: cint) = smax 0 (10 - 7)
   \<and> (7 :: cint) = sum_list (map units
         [\<lparr>group_id = 1, item_names = ''ann,bob'', distance = 6 :: real, cost = 3 / 2 :: real, units = 7\<rparr>])
   \<and> sum_list (map (\<lambda>t. sint (units t))
         [\<lparr>group_id = 1, item_names = ''ann,bob'', distance = 6 :: real, cost = 3 / 2 :: real, units = 7\<rparr>]) = 7
   \<and> sint (7 :: cint) = 7
   \<and> sint (3 :: cint) = max 0 (sint (10 :: cint) - 7)"
  using shortfall_is_deficit [OF demo_run] demo_run by simp

text \<open>
  Claim C9 (no solution on failure). When the structured entry point is called with
  a non-null output pointer and returns a nonzero code, the cell it points to holds
  null.
\<close>

theorem failure_leaves_null:
  assumes "solve_knapsack_v2_from_json H json_config options_json (Some previous) = Returns (code, cell)"
    and "code \<noteq> 0"
  shows "cell = Some None"
  using assms
  by (auto simp: solve_knapsack_v2_from_json_def split: option.splits if_splits exec.splits)

theorem failure_leaves_null_witness:
  "solve_knapsack_v2_from_json demo_v2 (Some ''{mode: assign}'') None (Some None) = Returns (- 5, Some None)
   \<and> (- 5 :: int) \<noteq> 0 \<and> (Some None :: KnapsackSolutionV2 option option) = Some None"
  using failure_leaves_null [OF demo_assign] demo_assign by simp

text \<open>
  Claim C10 (strict feasibility in the legacy path), as amended. With a cap that is
  not negative, the 32-bit sum of \<^verbatim>\<open>(int)weights[i]\<close> over the items to which a
  generated candidate gives lane 1 is at most \<^verbatim>\<open>MAX_UNITS_PER_GROUP\<close>. Where
  every weight of the block survives the two conversions and is small enough for the
  sum not to wrap, the units of those items sum to at most the cap.
\<close>

theorem legacy_candidates_feasible:
  assumes "candidate_batch P entities st = Some (blockIdx, bytes_per_cand, vals, weights, g', cand)"
    and "c < 64"
  shows "(0 \<le> sint (MAX_UNITS_PER_GROUP P)
            \<longrightarrow> sint (running_load P weights bytes_per_cand cand c (length blockIdx))
                  \<le> sint (MAX_UNITS_PER_GROUP P))
       \<and> (0 \<le> sint (MAX_UNITS_PER_GROUP P) \<and> weights_exact P entities blockIdx
            \<and> weights_small P entities blockIdx
            \<longrightarrow> unit_load entities blockIdx bytes_per_cand cand c (length blockIdx)
                  \<le> sint (MAX_UNITS_PER_GROUP P))"
proof -
  note inv = batch_invariant [OF assms(1)]
  note fit = inv(4) [OF assms(2)]
  have "sint (running_load P weights bytes_per_cand cand c (length blockIdx)) \<le> sint (MAX_UNITS_PER_GROUP P)"
    if "0 \<le> sint (MAX_UNITS_PER_GROUP P)"
    unfolding inv(3) using fit that by (rule running_load_le) simp
  moreover have "unit_load entities blockIdx bytes_per_cand cand c (length blockIdx) \<le> sint (MAX_UNITS_PER_GROUP P)"
    if "0 \<le> sint (MAX_UNITS_PER_GROUP P)" "weights_exact P entities blockIdx"
      "weights_small P entities blockIdx"
    using running_load_units [OF fit that(2,3) order_refl] that(1) by simp
  ultimately show ?thesis
    by blast
qed

theorem legacy_candidates_feasible_witness:
  "candidate_batch demo_platform demo_entities (start_search 10)
     = Some ([0, 1], 1, [2, 1], [3, 4], 12473, replicate 64 1)
   \<and> sint (MAX_UNITS_PER_GROUP demo_platform) = 5
   \<and> weights_exact demo_platform demo_entities [0, 1]
   \<and> weights_small demo_platform demo_entities [0, 1]
   \<and> sint (running_load demo_platform [3, 4] 1 (replicate 64 1) 7 (length [0, 1 :: nat])) \<le> 5
   \<and> unit_load demo_entities [0, 1] 1 (replicate 64 1) 7 (length [0, 1 :: nat]) \<le> 5"
proof -
  have c: "(7::nat) < 64"
    by simp
  have cap: "sint (MAX_UNITS_PER_GROUP demo_platform) = 5"
    by (simp add: demo_platform_def ieee_platform_def)
  show ?thesis
    using legacy_candidates_feasible [OF demo_batch c] demo_batch demo_exact demo_small
    by (simp add: cap)
qed

text \<open>
  The claim as stated fails: the test of line 77 reads the weight from the
  \<^verbatim>\<open>float\<close> array, not the exact one. An entity of 16777217 units is stored as
  16777216, passes the test under a cap of 16777216 and is given lane 1 in every
  candidate: the weight assigned is over the cap. An entity of 2147483647 units, whose
  stored weight the cast turns into \<^verbatim>\<open>INT_MIN\<close>, is given lane 1 under a cap of 5.
\<close>

theorem legacy_candidates_feasible_counterexample:
  "candidate_batch rounded_platform rounded_entities (start_search 10)
     = Some ([0], 1, [1], [16777216], 12409, replicate 64 1)
   \<and> sint (MAX_UNITS_PER_GROUP rounded_platform) = 16777216
   \<and> sint (resourceUnits (rounded_entities ! 0)) = 16777217
   \<and> decode_lane 1 (replicate 64 1) 0 0 = 1
   \<and> unit_load rounded_entities [0] 1 (replicate 64 1) 0 (length [0 :: nat]) = 16777217
   \<and> candidate_batch huge_platform huge_entities (start_search 10)
     = Some ([0], 1, [1], [2147483648], 12409, replicate 64 1)
   \<and> sint (MAX_UNITS_PER_GROUP huge_platform) = 5
   \<and> sint (resourceUnits (huge_entities ! 0)) = 2147483647
   \<and> unit_load huge_entities [0] 1 (replicate 64 1) 0 (length [0 :: nat]) = 2147483647"
  using huge_batch rounded_batch demo_units(3,4)
  by (simp add: huge_platform_def rounded_platform_def ieee_platform_def huge_entities_def
      rounded_entities_def unit_load_def decode_lane_def)

end
